theory Spec2Isabelle
  imports Complex_Main "HOL-Library.Sublist" "HOL-Library.AList"
begin

section \<open>Embedding of the synthBTC simulation engine\<close>

text \<open>
  Conventions of the embedding.
  \<^item> A JavaScript Number is a \<^typ>\<open>real\<close>: arithmetic is exact, so IEEE-754 rounding,
    overflow to Infinity and NaN propagation are outside the model. Where the source can
    produce \<^verbatim>\<open>undefined\<close>, \<^verbatim>\<open>NaN\<close> or an infinite value from well-formed input (an empty
    price array, a division by zero) the result is an \<^typ>\<open>'a option\<close> and \<open>None\<close> stands
    for that non-finite value.
  \<^item> Counts (simulation count, horizon in days) are \<^typ>\<open>int\<close>: the source compares them
    with \<open>0\<close>, so zero and negative values are inputs it can receive.
  \<^item> A thrown \<^verbatim>\<open>Error\<close> is the left injection of a sum type.
  \<^item> \<^verbatim>\<open>Math.random()\<close> is an explicit supply of draws, a \<^typ>\<open>real list\<close> read from the
    front. A computation that asks for a draw when the supply is empty yields \<open>None\<close>:
    the re-roll loops of the sampler have not returned on this supply.
  \<^item> The calls of the worker pool are effects of the engine: the pool keeps the length of
    the data array of every call made to it.
  \<^item> The cells of the CSV files are kept as typed values; their textual formatting
    (\<^verbatim>\<open>toFixed\<close>, sign prefixes, units) is not modelled.
\<close>

datatype error = Error string | TypeError

subsection \<open>modules/utils.js: statistics\<close>

text \<open>\<^verbatim>\<open>allPrices.reduce((min, p) => p < min ? p : min, allPrices[0])\<close>; on the empty
  array the initial value \<^verbatim>\<open>allPrices[0]\<close> is \<^verbatim>\<open>undefined\<close>.\<close>

definition lowestPrice_of :: "real list \<Rightarrow> real option" where
  "lowestPrice_of allPrices =
     (case allPrices of
        [] \<Rightarrow> None
      | p0 # _ \<Rightarrow> Some (foldl (\<lambda>mn p. if p < mn then p else mn) p0 allPrices))"

definition highestPrice_of :: "real list \<Rightarrow> real option" where
  "highestPrice_of allPrices =
     (case allPrices of
        [] \<Rightarrow> None
      | p0 # _ \<Rightarrow> Some (foldl (\<lambda>mx p. if p > mx then p else mx) p0 allPrices))"

text \<open>\<^verbatim>\<open>allPrices.reduce((acc, p) => acc + p, 0) / allPrices.length\<close>; \<open>0 / 0\<close> is NaN.\<close>

definition averagePrice_of :: "real list \<Rightarrow> real option" where
  "averagePrice_of allPrices =
     (if length allPrices = 0 then None
      else Some (foldl (\<lambda>acc p. acc + p) 0 allPrices / real (length allPrices)))"

definition calculateTargetPrice :: "real list \<Rightarrow> real option" where
  "calculateTargetPrice prices =
     (if length prices = 0 then None
      else
        let mean = foldl (\<lambda>acc p. acc + p) 0 prices / real (length prices);
            variance = foldl (\<lambda>acc p. acc + (p - mean) ^ 2) 0 prices / real (length prices);
            stdDev = sqrt variance
        in Some (mean + stdDev))"

text \<open>The statistics in the words of the specification, for comparison.\<close>

definition arithmetic_mean :: "real list \<Rightarrow> real" where
  "arithmetic_mean xs = sum_list xs / real (length xs)"

definition population_sd :: "real list \<Rightarrow> real" where
  "population_sd xs =
     sqrt ((\<Sum>x\<leftarrow>xs. (x - arithmetic_mean xs) ^ 2) / real (length xs))"

text \<open>\<^verbatim>\<open>calculateChangePercentage\<close>: the number behind the formatted string. A missing
  simulated price gives NaN; a \<^verbatim>\<open>null\<close> or zero current price divides by zero.\<close>

definition calculateChangePercentage :: "real option \<Rightarrow> real option \<Rightarrow> real option" where
  "calculateChangePercentage simulatedPrice currentPrice =
     (case simulatedPrice of
        None \<Rightarrow> None
      | Some s \<Rightarrow>
          let c = (case currentPrice of None \<Rightarrow> 0 | Some c \<Rightarrow> c)
          in if c = 0 then None else Some (((s - c) / c) * 100))"

text \<open>\<^verbatim>\<open>Math.round\<close> rounds half up; \<^verbatim>\<open>Math.round(undefined)\<close> is NaN and
  \<^verbatim>\<open>Math.round(null)\<close> is \<open>0\<close>.\<close>

definition js_round :: "real \<Rightarrow> int" where
  "js_round x = \<lfloor>x + 1 / 2\<rfloor>"

definition round_stat :: "real option \<Rightarrow> int option" where
  "round_stat x = map_option js_round x"

definition round_current :: "real option \<Rightarrow> int" where
  "round_current currentPrice = (case currentPrice of None \<Rightarrow> 0 | Some c \<Rightarrow> js_round c)"

subsection \<open>modules/utils.js: raw-output file index\<close>

definition startsWith :: "string \<Rightarrow> string \<Rightarrow> bool" where
  "startsWith file p = prefix p file"

definition endsWith :: "string \<Rightarrow> string \<Rightarrow> bool" where
  "endsWith file s = suffix s file"

definition is_digit :: "char \<Rightarrow> bool" where
  "is_digit c = (c \<in> set ''0123456789'')"

text \<open>\<^verbatim>\<open>file.match(/_(\d+)\.csv$/)\<close>: the captured digits, or \<open>None\<close> when the match is
  \<^verbatim>\<open>null\<close>. A match is an underscore, one or more digits and \<^verbatim>\<open>.csv\<close> at the end of the
  name; as the underscore is no digit, the digits are the whole run of digits before
  \<^verbatim>\<open>.csv\<close>.\<close>

definition match_index :: "string \<Rightarrow> string option" where
  "match_index file =
     (if \<not> suffix ''.csv'' file then None
      else
        let body = rev (drop 4 (rev file));
            ds = takeWhile is_digit (rev body);
            rest = dropWhile is_digit (rev body)
        in (case rest of
              [] \<Rightarrow> None
            | c # _ \<Rightarrow> if ds \<noteq> [] \<and> c = CHR ''_'' then Some (rev ds) else None))"

definition digit_value :: "char \<Rightarrow> nat" where
  "digit_value c = of_char c - 48"

text \<open>\<^verbatim>\<open>parseInt(digits, 10)\<close> on a string of decimal digits.\<close>

definition parseInt :: "string \<Rightarrow> nat" where
  "parseInt ds = foldl (\<lambda>n c. 10 * n + digit_value c) 0 ds"

text \<open>The index of one matching file name; indexing the \<^verbatim>\<open>null\<close> match throws a
  TypeError, which aborts the whole \<^verbatim>\<open>map\<close>.\<close>

definition file_index :: "string \<Rightarrow> error + nat" where
  "file_index file =
     (case match_index file of None \<Rightarrow> Inl TypeError | Some ds \<Rightarrow> Inr (parseInt ds))"

fun map_indices :: "string list \<Rightarrow> error + nat list" where
  "map_indices [] = Inr []"
| "map_indices (file # files) =
     (case file_index file of
        Inl e \<Rightarrow> Inl e
      | Inr n \<Rightarrow> (case map_indices files of Inl e \<Rightarrow> Inl e | Inr ns \<Rightarrow> Inr (n # ns)))"

definition getLastFileIndex :: "string list \<Rightarrow> string \<Rightarrow> error + nat" where
  "getLastFileIndex files p =
     (let csvFiles = filter (\<lambda>file. startsWith file (p @ ''_'') \<and> endsWith file ''.csv'') files
      in if length csvFiles = 0 then Inr 0
         else (case map_indices csvFiles of
                 Inl e \<Rightarrow> Inl e
               | Inr indices \<Rightarrow> Inr (Max (set indices) + 1)))"

definition determineNextFileIndex :: "string list \<Rightarrow> string \<Rightarrow> error + nat" where
  "determineNextFileIndex files p =
     (let existingFiles =
            filter (\<lambda>file. startsWith file (p @ ''_'') \<and> endsWith file ''.csv'') files
      in (case map_indices existingFiles of
            Inl e \<Rightarrow> Inl e
          | Inr existingIndices \<Rightarrow>
              Inr (if length existingIndices > 0 then Max (set existingIndices) + 1 else 1)))"

subsection \<open>modules/monteCarloEngine.js: the random-walk sampler\<close>

text \<open>\<^verbatim>\<open>validateInputs\<close>: the first failing check throws. A \<^verbatim>\<open>null\<close> current price
  compares as \<open>0\<close>.\<close>

definition validateInputs :: "real option \<Rightarrow> int \<Rightarrow> real \<Rightarrow> int \<Rightarrow> error option" where
  "validateInputs currentPrice totalSimulations decimalVolatility simulationDays =
     (if (case currentPrice of None \<Rightarrow> 0 | Some c \<Rightarrow> c) \<le> 0
        then Some (Error ''Current price must be greater than 0'')
      else if totalSimulations \<le> 0 then Some (Error ''Simulations must be greater than 0'')
      else if decimalVolatility \<le> 0 then Some (Error ''Volatility must be greater than 0'')
      else if simulationDays \<le> 0 then Some (Error ''Days must be greater than 0'')
      else None)"

text \<open>\<^verbatim>\<open>while (u === 0) u = Math.random();\<close> starting from \<open>u = 0\<close>: draw until a draw
  is not zero. The result is that draw and the rest of the supply.\<close>

fun reroll :: "real list \<Rightarrow> (real \<times> real list) option" where
  "reroll [] = None"
| "reroll (r # rs) = (if r = 0 then reroll rs else Some (r, rs))"

definition gaussianRandom :: "real list \<Rightarrow> (real \<times> real list) option" where
  "gaussianRandom rs =
     (case reroll rs of
        None \<Rightarrow> None
      | Some (u, rs1) \<Rightarrow>
          (case reroll rs1 of
             None \<Rightarrow> None
           | Some (v, rs2) \<Rightarrow> Some (sqrt (- 2 * ln u) * cos (2 * pi * v), rs2)))"

text \<open>The body of the \<^verbatim>\<open>for\<close> loop over the days, with the number of iterations still
  to run as first argument.\<close>

fun price_loop :: "nat \<Rightarrow> real \<Rightarrow> int \<Rightarrow> real \<Rightarrow> real list \<Rightarrow> (real \<times> real list) option" where
  "price_loop 0 decimalVolatility simulationDays price rs = Some (price, rs)"
| "price_loop (Suc k) decimalVolatility simulationDays price rs =
     (case gaussianRandom rs of
        None \<Rightarrow> None
      | Some (z, rs') \<Rightarrow>
          let dailyChange = exp (decimalVolatility * z / sqrt (real_of_int simulationDays))
          in price_loop k decimalVolatility simulationDays (price * dailyChange) rs')"

text \<open>One element of the result array: \<^verbatim>\<open>let price = currentPrice; for (...) {...}
  return price\<close>.\<close>

definition simulate_one :: "real \<Rightarrow> real \<Rightarrow> int \<Rightarrow> real list \<Rightarrow> (real \<times> real list) option" where
  "simulate_one currentPrice decimalVolatility simulationDays rs =
     price_loop (nat simulationDays) decimalVolatility simulationDays currentPrice rs"

text \<open>\<^verbatim>\<open>Array.from({ length: data.length }, () => {...})\<close>: the elements are computed in
  index order.\<close>

fun array_from :: "nat \<Rightarrow> real \<Rightarrow> real \<Rightarrow> int \<Rightarrow> real list \<Rightarrow> (real list \<times> real list) option" where
  "array_from 0 currentPrice decimalVolatility simulationDays rs = Some ([], rs)"
| "array_from (Suc n) currentPrice decimalVolatility simulationDays rs =
     (case simulate_one currentPrice decimalVolatility simulationDays rs of
        None \<Rightarrow> None
      | Some (price, rs') \<Rightarrow>
          (case array_from n currentPrice decimalVolatility simulationDays rs' of
             None \<Rightarrow> None
           | Some (prices, rs'') \<Rightarrow> Some (price # prices, rs'')))"

text \<open>The worker pool as the engine uses it: the lengths of the data arrays of the
  calls of \<^verbatim>\<open>turbit.run\<close> made so far, in order, and the draws that its workers will make.\<close>

record worker_pool =
  turbit_calls :: "nat list"
  turbit_draws :: "real list"

text \<open>The pool as a run of the engine starts with it: no call recorded yet, and the draws
  of the environment.\<close>

definition fresh_pool :: "real list \<Rightarrow> worker_pool" where
  "fresh_pool rs = \<lparr>turbit_calls = [], turbit_draws = rs\<rparr>"

text \<open>Modelled from the spec: the Batch Worker Pool is the Turbit library, which is not
  part of this repository. By its contract (section 4.2) the pool applies the worker to
  the data and returns the results in the order of the data, whatever the power setting;
  here one worker processes the whole array. Every call is recorded with the length of
  its data array.\<close>

definition turbit_run ::
  "(nat \<Rightarrow> real list \<Rightarrow> (real list \<times> real list) option) \<Rightarrow> nat \<Rightarrow> nat \<Rightarrow> worker_pool
     \<Rightarrow> (real list \<times> worker_pool) option" where
  "turbit_run worker dataLength turbitPower pool =
     (case worker dataLength (turbit_draws pool) of
        None \<Rightarrow> None
      | Some (results, rs') \<Rightarrow>
          Some (results,
                \<lparr>turbit_calls = turbit_calls pool @ [dataLength], turbit_draws = rs'\<rparr>))"

text \<open>\<^verbatim>\<open>simulatePrices\<close>: \<open>None\<close> when the sampler does not return, \<open>Some (Inl e)\<close> when
  the validation throws, \<open>Some (Inr (prices, pool after the call))\<close> otherwise.\<close>

definition simulatePrices ::
  "real option \<Rightarrow> int \<Rightarrow> real \<Rightarrow> int \<Rightarrow> nat \<Rightarrow> worker_pool
     \<Rightarrow> (error + real list \<times> worker_pool) option" where
  "simulatePrices currentPrice totalSimulations decimalVolatility simulationDays turbitPower pool =
     (case validateInputs currentPrice totalSimulations decimalVolatility simulationDays of
        Some e \<Rightarrow> Some (Inl e)
      | None \<Rightarrow>
          (case turbit_run
                  (\<lambda>len. array_from len (the currentPrice) decimalVolatility simulationDays)
                  (nat totalSimulations) turbitPower pool of
             None \<Rightarrow> None
           | Some (prices, pool') \<Rightarrow> Some (Inr (prices, pool'))))"

subsection \<open>modules/monteCarloEngine.js: batching\<close>

definition desiredBatchSize :: int where
  "desiredBatchSize = 5000"

definition batchCount :: "int \<Rightarrow> int" where
  "batchCount totalSimulations = \<lceil>real_of_int totalSimulations / real_of_int desiredBatchSize\<rceil>"

definition batchSize :: "int \<Rightarrow> nat \<Rightarrow> int" where
  "batchSize totalSimulations i =
     (if int i = batchCount totalSimulations - 1
      then totalSimulations - (int i * desiredBatchSize) else desiredBatchSize)"

text \<open>The \<^verbatim>\<open>for\<close> loop of \<^verbatim>\<open>executeFullSimulation\<close>, from batch \<open>i\<close> on, with the prices
  collected so far.\<close>

function batch_loop ::
  "real option \<Rightarrow> int \<Rightarrow> real \<Rightarrow> int \<Rightarrow> nat \<Rightarrow> nat \<Rightarrow> real list \<Rightarrow> worker_pool
     \<Rightarrow> (error + real list \<times> worker_pool) option" where
  "batch_loop currentPrice totalSimulations decimalVolatility simulationDays turbitPower
       i allPrices pool =
     (if int i < batchCount totalSimulations then
        (case simulatePrices currentPrice (batchSize totalSimulations i) decimalVolatility
                simulationDays turbitPower pool of
           None \<Rightarrow> None
         | Some (Inl e) \<Rightarrow> Some (Inl e)
         | Some (Inr (batchPrices, pool')) \<Rightarrow>
             batch_loop currentPrice totalSimulations decimalVolatility simulationDays
               turbitPower (Suc i) (allPrices @ batchPrices) pool')
      else Some (Inr (allPrices, pool)))"
  by pat_completeness auto
termination
  by (relation "measure (\<lambda>(c, n, v, d, p, i, a, r). nat (batchCount n - int i))") auto

declare batch_loop.simps [simp del]

definition executeFullSimulation ::
  "real option \<Rightarrow> int \<Rightarrow> real \<Rightarrow> int \<Rightarrow> nat \<Rightarrow> worker_pool
     \<Rightarrow> (error + real list \<times> worker_pool) option" where
  "executeFullSimulation currentPrice totalSimulations decimalVolatility simulationDays
       turbitPower pool =
     batch_loop currentPrice totalSimulations decimalVolatility simulationDays turbitPower
       0 [] pool"

subsection \<open>modules/priceFetcher.js\<close>

text \<open>The two feeds are inputs: each is the fetched price, or \<open>None\<close> for the \<^verbatim>\<open>null\<close>
  returned when the request failed.\<close>

definition getCurrentPrice :: "real option \<Rightarrow> real option \<Rightarrow> error + real" where
  "getCurrentPrice priceCoinGecko priceEtherscan =
     (if priceCoinGecko \<noteq> None \<and> priceEtherscan \<noteq> None
        then Inr ((the priceCoinGecko + the priceEtherscan) / 2)
      else if priceCoinGecko \<noteq> None then Inr (the priceCoinGecko)
      else if priceEtherscan \<noteq> None then Inr (the priceEtherscan)
      else Inl (Error ''Failed to fetch BTC price from both sources.''))"

subsection \<open>modules/csvHandler.js\<close>

text \<open>A directory is an association list from file names to contents, and the content
  of a CSV file is the list of its data rows: the header line, written once when the
  file is created, is implicit.\<close>

type_synonym 'row directory = "(string \<times> 'row list) list"

definition readdirSync :: "'row directory \<Rightarrow> string list" where
  "readdirSync dir = map fst dir"

definition existsSync :: "'row directory \<Rightarrow> string \<Rightarrow> bool" where
  "existsSync dir file = (map_of dir file \<noteq> None)"

definition appendCSV :: "string \<Rightarrow> 'row list \<Rightarrow> 'row directory \<Rightarrow> 'row directory" where
  "appendCSV filePath data dir =
     AList.update filePath ((case map_of dir filePath of None \<Rightarrow> [] | Some old \<Rightarrow> old) @ data) dir"

text \<open>\<^verbatim>\<open>writeCSV\<close> overwrites the file with the header and appends the data.\<close>

definition writeCSV :: "string \<Rightarrow> 'row list \<Rightarrow> 'row directory \<Rightarrow> 'row directory" where
  "writeCSV filePath data dir = appendCSV filePath data (AList.update filePath [] dir)"

definition getCSVFiles :: "'row directory \<Rightarrow> string \<Rightarrow> string list" where
  "getCSVFiles directory p =
     filter (\<lambda>file. startsWith file p \<and> endsWith file ''.csv'') (readdirSync directory)"

text \<open>\<^verbatim>\<open>calculateSimulatedData\<close>: for every file, the lines after the header minus the
  empty string after the last line break, that is the number of data rows.\<close>

definition calculateSimulatedData :: "'row directory \<Rightarrow> string \<Rightarrow> int" where
  "calculateSimulatedData directory p =
     foldl (\<lambda>acc file. acc + int (length (case map_of directory file of None \<Rightarrow> [] | Some rows \<Rightarrow> rows)))
       0 (getCSVFiles directory p)"

subsection \<open>synthBTC.js: data\<close>

text \<open>A row of a raw-output file: columns \<^verbatim>\<open>simulation_id,price,percentage_change\<close>.\<close>

record raw_row =
  row_simulation_id :: nat
  row_price :: int
  row_percentage_change :: "real option"

text \<open>A row of the run log \<^verbatim>\<open>core.csv\<close>, with the columns of its header.\<close>

record summary_row =
  simulation_id :: int
  timestamp :: nat
  current_price :: int
  highest_price :: "int option"
  target_price :: "int option"
  average_price :: "int option"
  lowest_price :: "int option"
  simulated_data :: int
  total_simulated :: int
  processing_time :: nat
  data_source :: string

record price_point =
  price :: "int option"
  changePercentage :: "real option"

record overview =
  current :: int
  highest :: price_point
  target :: price_point
  average :: price_point
  lowest :: price_point

text \<open>The details of an output; the fields that only read the clock or the size of
  the data directory (\<^verbatim>\<open>executionTime\<close>, \<^verbatim>\<open>currentYear\<close>, \<^verbatim>\<open>dataSize\<close>) are left out.\<close>

record details =
  simulatedData_total :: int
  processingTime_ms :: nat
  totalSimulations_run :: int
  totalSimulationDays :: int
  dataSource :: string

record simulation_output =
  status :: string
  overview :: overview
  details :: details

text \<open>The static properties of the class, and the two directories it writes.\<close>

record engine =
  lastKnownPrice :: "real option"
  connectionLost :: bool
  fileIndex :: nat
  simulatedData :: int
  simulationCounter :: int
  simulationStatus :: string
  latestOutput :: "simulation_output option"
  dataPrivateDir :: "raw_row directory"
  coreFilePath :: "summary_row directory"

text \<open>What one run reads from outside: the two price feeds, the draws of
  \<^verbatim>\<open>Math.random()\<close>, and the clock (duration of the simulation, time of the log entry).\<close>

record environment =
  priceCoinGecko :: "real option"
  priceEtherscan :: "real option"
  random :: "real list"
  processingTime :: nat
  now :: nat

record simulationConfig =
  totalSimulations :: int
  volatilityPercentage :: real
  simulationDays :: int
  turbitPower :: nat

definition coreFileName :: string where
  "coreFileName = ''core.csv''"

definition outputFileSources :: string where
  "outputFileSources = ''source_simulation''"

definition digit_char :: "nat \<Rightarrow> char" where
  "digit_char d = ''0123456789'' ! d"

text \<open>The decimal digits of a number, as the template literal prints the file index.\<close>

function show_nat :: "nat \<Rightarrow> string" where
  "show_nat n = (if n < 10 then [digit_char n] else show_nat (n div 10) @ [digit_char (n mod 10)])"
  by pat_completeness auto
termination
  by (relation "measure (\<lambda>n. n)") auto

declare show_nat.simps [simp del]

definition source_file :: "nat \<Rightarrow> string" where
  "source_file idx = outputFileSources @ ''_'' @ show_nat idx @ ''.csv''"

subsection \<open>synthBTC.js: one run\<close>

definition currentPriceBTC :: "environment \<Rightarrow> engine \<Rightarrow> engine" where
  "currentPriceBTC env st =
     (case getCurrentPrice (priceCoinGecko env) (priceEtherscan env) of
        Inr p \<Rightarrow> st\<lparr>lastKnownPrice := Some p, connectionLost := False\<rparr>
      | Inl e \<Rightarrow> st\<lparr>connectionLost := True\<rparr>)"

definition getUpdatedOverview ::
  "real option \<Rightarrow> real option \<Rightarrow> real option \<Rightarrow> real option \<Rightarrow> real option \<Rightarrow> overview" where
  "getUpdatedOverview currentPrice highestPrice targetPrice averagePrice lowestPrice =
     \<lparr>current = round_current currentPrice,
      highest = \<lparr>price = round_stat highestPrice,
                 changePercentage = calculateChangePercentage highestPrice currentPrice\<rparr>,
      target = \<lparr>price = round_stat targetPrice,
                changePercentage = calculateChangePercentage targetPrice currentPrice\<rparr>,
      average = \<lparr>price = round_stat averagePrice,
                 changePercentage = calculateChangePercentage averagePrice currentPrice\<rparr>,
      lowest = \<lparr>price = round_stat lowestPrice,
                changePercentage = calculateChangePercentage lowestPrice currentPrice\<rparr>\<rparr>"

text \<open>\<^verbatim>\<open>allPrices.slice(a, b)\<close> for \<open>0 \<le> a \<le> b\<close>.\<close>

definition slice :: "'a list \<Rightarrow> nat \<Rightarrow> nat \<Rightarrow> 'a list" where
  "slice xs a b = take (b - a) (drop a xs)"

text \<open>The rows of one chunk: \<^verbatim>\<open>slicedPrices.forEach((price, index) => ...)\<close>, where
  \<open>index\<close> is the position in the slice.\<close>

definition chunk_rows :: "real option \<Rightarrow> real list \<Rightarrow> raw_row list" where
  "chunk_rows currentPrice slicedPrices =
     map (\<lambda>(index, price).
            \<lparr>row_simulation_id = index + 1,
             row_price = js_round price,
             row_percentage_change = calculateChangePercentage (Some price) currentPrice\<rparr>)
       (enumerate 0 slicedPrices)"

text \<open>The loop that appends the chunks of 5000 rows to the raw-output file, from chunk
  \<open>i\<close> on.\<close>

function write_loop ::
  "int \<Rightarrow> real option \<Rightarrow> real list \<Rightarrow> string \<Rightarrow> nat \<Rightarrow> raw_row directory \<Rightarrow> raw_row directory" where
  "write_loop n currentPrice allPrices file i dir =
     (if int i < \<lceil>real_of_int n / 5000\<rceil> then
        write_loop n currentPrice allPrices file (Suc i)
          (appendCSV file (chunk_rows currentPrice (slice allPrices (i * 5000) ((i + 1) * 5000))) dir)
      else dir)"
  by pat_completeness auto
termination
  by (relation "measure (\<lambda>(n, c, a, f, i, d). nat (\<lceil>real_of_int n / 5000\<rceil> - int i))") auto

declare write_loop.simps [simp del]

text \<open>\<^verbatim>\<open>generateSimulations\<close>. The result is \<open>None\<close> when the sampler does not return;
  otherwise the state the call leaves behind, with the thrown error or the returned
  output.\<close>

definition generateSimulations ::
  "simulationConfig \<Rightarrow> environment \<Rightarrow> engine \<Rightarrow> (error \<times> engine + simulation_output \<times> engine) option" where
  "generateSimulations cfg env st0 =
     (let st1 = st0\<lparr>simulationStatus := ''PROCESSING''\<rparr>;
          st2 = currentPriceBTC env st1;
          currentPrice = lastKnownPrice st2;
          decimalVolatility = volatilityPercentage cfg / 100
      in case executeFullSimulation currentPrice (totalSimulations cfg) decimalVolatility
                (simulationDays cfg) (turbitPower cfg) (fresh_pool (random env)) of
           None \<Rightarrow> None
         | Some (Inl e) \<Rightarrow> Some (Inl (e, st2))
         | Some (Inr (allPrices, pool)) \<Rightarrow>
             let lowestPrice = lowestPrice_of allPrices;
                 highestPrice = highestPrice_of allPrices;
                 averagePrice = averagePrice_of allPrices;
                 targetPrice = calculateTargetPrice allPrices;
                 st3 = st2\<lparr>simulatedData := simulatedData st2 + totalSimulations cfg,
                          simulationCounter := simulationCounter st2 + 1\<rparr>
             in case determineNextFileIndex (readdirSync (dataPrivateDir st3)) outputFileSources of
                  Inl e \<Rightarrow> Some (Inl (e, st3))
                | Inr idx \<Rightarrow>
                    let st4 = st3\<lparr>fileIndex := idx\<rparr>;
                        file = source_file (fileIndex st4);
                        st5 = st4\<lparr>dataPrivateDir :=
                                 write_loop (totalSimulations cfg) currentPrice allPrices file 0
                                   (writeCSV file [] (dataPrivateDir st4))\<rparr>;
                        logEntry =
                          \<lparr>simulation_id = simulationCounter st5,
                           timestamp = now env,
                           current_price = round_current currentPrice,
                           highest_price = round_stat highestPrice,
                           target_price = round_stat targetPrice,
                           average_price = round_stat averagePrice,
                           lowest_price = round_stat lowestPrice,
                           simulated_data = totalSimulations cfg,
                           total_simulated = simulatedData st5,
                           processing_time = processingTime env,
                           data_source = source_file (fileIndex st5)\<rparr>;
                        st6 = st5\<lparr>coreFilePath :=
                                 (if \<not> existsSync (coreFilePath st5) coreFileName
                                  then writeCSV coreFileName [logEntry] (coreFilePath st5)
                                  else appendCSV coreFileName [logEntry] (coreFilePath st5))\<rparr>;
                        st7 = st6\<lparr>simulationStatus := ''OK''\<rparr>
                    in Some (Inr
                         (\<lparr>status = simulationStatus st7,
                           overview = getUpdatedOverview currentPrice highestPrice targetPrice
                                        averagePrice lowestPrice,
                           details =
                             \<lparr>simulatedData_total = simulatedData st7,
                              processingTime_ms = processingTime env,
                              totalSimulations_run = simulationCounter st7,
                              totalSimulationDays = simulationDays cfg,
                              dataSource = source_file (fileIndex st7)\<rparr>\<rparr>,
                          st7)))"

definition getSimulationData ::
  "simulationConfig \<Rightarrow> environment \<Rightarrow> engine \<Rightarrow> (error \<times> engine + simulation_output \<times> engine) option" where
  "getSimulationData cfg env st =
     (case generateSimulations cfg env st of
        None \<Rightarrow> None
      | Some (Inl failure) \<Rightarrow> Some (Inl failure)
      | Some (Inr (out, st')) \<Rightarrow> Some (Inr (out, st'\<lparr>latestOutput := Some out\<rparr>)))"

subsection \<open>synthBTC.js: start-up\<close>

text \<open>The static initialisers of the class, over the directories found on disk.\<close>

definition static_engine :: "raw_row directory \<Rightarrow> summary_row directory \<Rightarrow> engine" where
  "static_engine dataDir coreDir =
     \<lparr>lastKnownPrice = None, connectionLost = False, fileIndex = 1, simulatedData = 0,
      simulationCounter = 0, simulationStatus = ''OK'', latestOutput = None,
      dataPrivateDir = dataDir, coreFilePath = coreDir\<rparr>"

text \<open>The part of \<^verbatim>\<open>init\<close> that sets the counters from the data directory.\<close>

definition init :: "engine \<Rightarrow> error + engine" where
  "init st =
     (case getLastFileIndex (readdirSync (dataPrivateDir st)) outputFileSources of
        Inl e \<Rightarrow> Inl e
      | Inr idx \<Rightarrow>
          Inr (st\<lparr>fileIndex := idx,
                  simulatedData := calculateSimulatedData (dataPrivateDir st) outputFileSources,
                  simulationCounter :=
                    int (length (getCSVFiles (dataPrivateDir st) outputFileSources))\<rparr>))"

subsection \<open>modules/apiCore.js: queries on the run log\<close>

definition readCoreSimulations :: "summary_row directory \<Rightarrow> string \<Rightarrow> error + summary_row list" where
  "readCoreSimulations dir fileName =
     (if \<not> existsSync dir fileName then Inl (Error ''Core log file does not exist.'')
      else Inr (the (map_of dir fileName)))"

text \<open>An entry of the answer: a stored row, or the marker
  \<^verbatim>\<open>{ error: `Simulation ${id} not available` }\<close> for the requested id. An id is what
  \<^verbatim>\<open>parseInt\<close> made of the request text: an integer, or \<open>None\<close> for NaN.\<close>

datatype entry = Record summary_row | NotAvailable "int option"

definition lookup_id :: "summary_row list \<Rightarrow> int option \<Rightarrow> entry" where
  "lookup_id simulations requested =
     (case requested of
        None \<Rightarrow> NotAvailable None
      | Some i \<Rightarrow>
          if i > 0 \<and> i \<le> int (length simulations) then Record (simulations ! nat (i - 1))
          else NotAvailable (Some i))"

text \<open>\<^verbatim>\<open>getSimulationsByIds\<close>: \<open>Inr\<close> is the JSON answer, \<open>Inl\<close> the status-500 answer
  of the \<^verbatim>\<open>catch\<close> block.\<close>

definition getSimulationsByIds :: "engine \<Rightarrow> int option list \<Rightarrow> error + entry list" where
  "getSimulationsByIds st ids =
     (case readCoreSimulations (coreFilePath st) coreFileName of
        Inl e \<Rightarrow> Inl e
      | Inr simulations \<Rightarrow> Inr (map (lookup_id simulations) ids))"

subsection \<open>Concrete inputs for the examples\<close>

definition example_row :: "int \<Rightarrow> int \<Rightarrow> int \<Rightarrow> summary_row" where
  "example_row n c t =
     \<lparr>simulation_id = n, timestamp = 0, current_price = 50000, highest_price = Some 60000,
      target_price = Some 55000, average_price = Some 50000, lowest_price = Some 40000,
      simulated_data = c, total_simulated = t, processing_time = 10,
      data_source = source_file (nat n)\<rparr>"

definition example_engine :: engine where
  "example_engine =
     (static_engine [] [(coreFileName, [example_row 1 10 10, example_row 2 5 15])])
       \<lparr>simulatedData := 15, simulationCounter := 2, lastKnownPrice := Some 50000\<rparr>"

text \<open>A supply of draws that are all one half.\<close>

definition steady_draws :: "nat \<Rightarrow> real list" where
  "steady_draws k = replicate k (1 / 2)"

definition example_config :: "int \<Rightarrow> real \<Rightarrow> simulationConfig" where
  "example_config n v =
     \<lparr>totalSimulations = n, volatilityPercentage = v, simulationDays = 1, turbitPower = 4\<rparr>"

text \<open>An environment whose feeds both answer, and one whose feeds both fail.\<close>

definition example_environment :: "nat \<Rightarrow> environment" where
  "example_environment k =
     \<lparr>priceCoinGecko = Some 50000, priceEtherscan = Some 50000, random = steady_draws k,
      processingTime = 10, now = 100\<rparr>"

definition offline_environment :: "nat \<Rightarrow> environment" where
  "offline_environment k =
     \<lparr>priceCoinGecko = None, priceEtherscan = None, random = steady_draws k,
      processingTime = 10, now = 100\<rparr>"

subsection \<open>The sampler and the batching in the words of the specification\<close>

text \<open>The draws that the re-roll loops keep: those that are not exactly zero.\<close>

definition nonzero_draws :: "real list \<Rightarrow> real list" where
  "nonzero_draws rs = filter (\<lambda>r. r \<noteq> 0) rs"

text \<open>Two draws for each normal variate.\<close>

fun draw_pairs :: "real list \<Rightarrow> (real \<times> real) list" where
  "draw_pairs (u # v # rs) = (u, v) # draw_pairs rs"
| "draw_pairs rs = []"

definition box_muller :: "real \<Rightarrow> real \<Rightarrow> real" where
  "box_muller u v = sqrt (- 2 * ln u) * cos (2 * pi * v)"

text \<open>One day's shock \<open>exp (volatility * Z / sqrt horizonDays)\<close>.\<close>

definition daily_shock :: "real \<Rightarrow> int \<Rightarrow> real \<Rightarrow> real" where
  "daily_shock volatility horizonDays z = exp (volatility * z / sqrt (real_of_int horizonDays))"

text \<open>The shocks of one path: one for each of the first \<open>horizonDays\<close> pairs of kept
  draws.\<close>

definition path_shocks :: "real \<Rightarrow> int \<Rightarrow> real list \<Rightarrow> real list" where
  "path_shocks volatility horizonDays rs =
     map (\<lambda>(u, v). daily_shock volatility horizonDays (box_muller u v))
       (take (nat horizonDays) (draw_pairs (nonzero_draws rs)))"

text \<open>The partition of a simulation count: batches of 5000, the last one taking the
  remainder.\<close>

definition batch_sizes :: "int \<Rightarrow> nat list" where
  "batch_sizes n =
     (let count = nat \<lceil>real_of_int n / 5000\<rceil>
      in replicate (count - 1) 5000 @ [nat n - 5000 * (count - 1)])"

text \<open>The results of the worker pool on a list of batch sizes, batch after batch.\<close>

fun run_batches ::
  "real \<Rightarrow> real \<Rightarrow> int \<Rightarrow> nat list \<Rightarrow> real list \<Rightarrow> (real list list \<times> real list) option" where
  "run_batches startPrice volatility horizonDays [] rs = Some ([], rs)"
| "run_batches startPrice volatility horizonDays (n # ns) rs =
     (case array_from n startPrice volatility horizonDays rs of
        None \<Rightarrow> None
      | Some (batch, rs') \<Rightarrow>
          (case run_batches startPrice volatility horizonDays ns rs' of
             None \<Rightarrow> None
           | Some (batches, rs'') \<Rightarrow> Some (batch # batches, rs'')))"

subsection \<open>Observations on a run and on the persisted files\<close>

text \<open>What a call left behind: the output it returned, the error it threw, and the
  state after it (none of them when the call did not return).\<close>

definition output_of ::
  "(error \<times> engine + simulation_output \<times> engine) option \<Rightarrow> simulation_output option" where
  "output_of r = (case r of Some (Inr (out, st)) \<Rightarrow> Some out | _ \<Rightarrow> None)"

definition thrown :: "(error \<times> engine + simulation_output \<times> engine) option \<Rightarrow> error option" where
  "thrown r = (case r of Some (Inl (e, st)) \<Rightarrow> Some e | _ \<Rightarrow> None)"

definition state_after :: "(error \<times> engine + simulation_output \<times> engine) option \<Rightarrow> engine option" where
  "state_after r =
     (case r of Some (Inr (out, st)) \<Rightarrow> Some st | Some (Inl (e, st)) \<Rightarrow> Some st | None \<Rightarrow> None)"

text \<open>The rows of the run log, and of a raw-output file.\<close>

definition run_log :: "engine \<Rightarrow> summary_row list" where
  "run_log st = (case map_of (coreFilePath st) coreFileName of None \<Rightarrow> [] | Some rows \<Rightarrow> rows)"

definition raw_file :: "engine \<Rightarrow> string \<Rightarrow> raw_row list option" where
  "raw_file st file = map_of (dataPrivateDir st) file"

text \<open>The row written for the price at position \<open>k\<close> (counted from 0) of a run: its
  number is the position within its chunk of 5000 rows, plus one.\<close>

definition numbered_row :: "real option \<Rightarrow> nat \<Rightarrow> real \<Rightarrow> raw_row" where
  "numbered_row currentPrice k p =
     \<lparr>row_simulation_id = k mod 5000 + 1, row_price = js_round p,
      row_percentage_change = calculateChangePercentage (Some p) currentPrice\<rparr>"

text \<open>The ledger invariant of the specification: from each row to the next the run id
  grows by exactly one and the cumulative count by the count of the later run.\<close>

fun chained :: "summary_row list \<Rightarrow> bool" where
  "chained (r # r' # rows) =
     (simulation_id r' = simulation_id r + 1 \<and>
      total_simulated r' = total_simulated r + simulated_data r' \<and> chained (r' # rows))"
| "chained rows = True"

text \<open>The counters of the engine continue the last row of the ledger.\<close>

definition counters_agree :: "engine \<Rightarrow> bool" where
  "counters_agree st =
     (case run_log st of
        [] \<Rightarrow> True
      | _ # _ \<Rightarrow>
          simulation_id (last (run_log st)) = simulationCounter st \<and>
          total_simulated (last (run_log st)) = simulatedData st)"

definition ledger_ok :: "engine \<Rightarrow> bool" where
  "ledger_ok st = (chained (run_log st) \<and> counters_agree st)"


subsection \<open>Runs and restarts of the process\<close>

text \<open>A restart loses the static properties and keeps the two directories; \<^verbatim>\<open>init\<close>
  then sets the counters from the data directory.\<close>

datatype event = Run simulationConfig environment | Restart

definition restart :: "engine \<Rightarrow> error + engine" where
  "restart st = init (static_engine (dataPrivateDir st) (coreFilePath st))"

text \<open>A history of completed runs and restarts; \<open>None\<close> when a run did not complete or
  the start-up threw.\<close>

fun run_events :: "engine \<Rightarrow> event list \<Rightarrow> engine option" where
  "run_events st [] = Some st"
| "run_events st (Run cfg env # events) =
     (case getSimulationData cfg env st of
        Some (Inr (out, st')) \<Rightarrow> run_events st' events
      | _ \<Rightarrow> None)"
| "run_events st (Restart # events) =
     (case restart st of Inr st' \<Rightarrow> run_events st' events | Inl e \<Rightarrow> None)"

text \<open>The counters agree with the run log and with the raw-output files, from which a
  restart recomputes them.\<close>

definition store_ok :: "engine \<Rightarrow> bool" where
  "store_ok st =
     (ledger_ok st \<and>
      simulationCounter st = int (length (getCSVFiles (dataPrivateDir st) outputFileSources)) \<and>
      simulatedData st = calculateSimulatedData (dataPrivateDir st) outputFileSources)"


section \<open>Properties\<close>

subsection \<open>Statistics of a run\<close>

lemma js_min_step: "(if x < a then x else a) = min a x" for a :: "'a::linorder"
  by (auto simp: min_def)

lemma js_max_step: "(if x > a then x else a) = max a x" for a :: "'a::linorder"
  by (auto simp: max_def)

lemma foldl_min_acc:
  "foldl (\<lambda>mn p. if p < mn then p else mn) a xs = Min (insert a (set xs))"
  for a :: "'a::linorder"
proof (induction xs arbitrary: a)
  case Nil
  show ?case by simp
next
  case (Cons x xs)
  have "foldl (\<lambda>mn p. if p < mn then p else mn) a (x # xs) = Min (insert (min a x) (set xs))"
    using Cons.IH [of "min a x"] by (simp add: js_min_step)
  also have "\<dots> = Min (insert a (set (x # xs)))"
    by (cases "set xs = {}") (simp_all add: min.assoc)
  finally show ?case .
qed

lemma foldl_max_acc:
  "foldl (\<lambda>mx p. if p > mx then p else mx) a xs = Max (insert a (set xs))"
  for a :: "'a::linorder"
proof (induction xs arbitrary: a)
  case Nil
  show ?case by simp
next
  case (Cons x xs)
  have "foldl (\<lambda>mx p. if p > mx then p else mx) a (x # xs) = Max (insert (max a x) (set xs))"
    using Cons.IH [of "max a x"] by (simp add: js_max_step)
  also have "\<dots> = Max (insert a (set (x # xs)))"
    by (cases "set xs = {}") (simp_all add: max.assoc)
  finally show ?case .
qed

lemma foldl_add_acc:
  "foldl (\<lambda>acc p. acc + f p) a xs = a + (\<Sum>x\<leftarrow>xs. f x)" for a :: real
  by (induction xs arbitrary: a) (simp_all add: add.assoc)

lemma foldl_plus_sum_list: "foldl (\<lambda>acc p. acc + p) 0 xs = sum_list xs" for xs :: "real list"
  using foldl_add_acc [of "\<lambda>p. p" 0 xs] by simp

lemma lowestPrice_of_Min:
  "allPrices \<noteq> [] \<Longrightarrow> lowestPrice_of allPrices = Some (Min (set allPrices))"
  by (cases allPrices) (simp_all add: lowestPrice_of_def foldl_min_acc insert_absorb)

lemma highestPrice_of_Max:
  "allPrices \<noteq> [] \<Longrightarrow> highestPrice_of allPrices = Some (Max (set allPrices))"
  by (cases allPrices) (simp_all add: highestPrice_of_def foldl_max_acc insert_absorb)

lemma averagePrice_of_mean:
  "allPrices \<noteq> [] \<Longrightarrow> averagePrice_of allPrices = Some (arithmetic_mean allPrices)"
  by (simp add: averagePrice_of_def arithmetic_mean_def foldl_plus_sum_list)

lemma calculateTargetPrice_mean_sd:
  "prices \<noteq> [] \<Longrightarrow>
     calculateTargetPrice prices = Some (arithmetic_mean prices + population_sd prices)"
  by (simp add: calculateTargetPrice_def arithmetic_mean_def population_sd_def Let_def
      foldl_add_acc foldl_plus_sum_list)

text \<open>
  Claim C5. For every non-empty array of terminal prices, the statistics computed by a
  run are: lowest the minimum, highest the maximum, average the arithmetic mean, and
  target that mean plus one population standard deviation of the array. (Here and below
  the arithmetic is that of the real numbers, as the conventions say.)
\<close>

theorem aggregator_formulas:
  assumes "allPrices \<noteq> []"
  shows "lowestPrice_of allPrices = Some (Min (set allPrices)) \<and>
         highestPrice_of allPrices = Some (Max (set allPrices)) \<and>
         averagePrice_of allPrices = Some (arithmetic_mean allPrices) \<and>
         calculateTargetPrice allPrices =
           Some (arithmetic_mean allPrices + population_sd allPrices)"
  using assms
  by (simp add: lowestPrice_of_Min highestPrice_of_Max averagePrice_of_mean
      calculateTargetPrice_mean_sd)

theorem aggregator_formulas_witness:
  "[1, 3 :: real] \<noteq> [] \<and>
   lowestPrice_of [1, 3] = Some 1 \<and> highestPrice_of [1, 3] = Some 3 \<and>
   averagePrice_of [1, 3] = Some 2 \<and> calculateTargetPrice [1, 3] = Some 3"
  using aggregator_formulas [of "[1, 3]"]
  by (simp add: arithmetic_mean_def population_sd_def)

subsection \<open>The two raw-output index helpers\<close>

lemma map_indices_length: "map_indices files = Inr ns \<Longrightarrow> length ns = length files"
  by (induction files arbitrary: ns) (auto split: sum.splits)

text \<open>
  Claim C10, as amended. The two helpers run the same filter and the same parse of the
  matching names. Whenever at least one file matches they agree: both return the highest
  numeric suffix plus one, or both throw on a matching name without a numeric suffix.
  When no file matches, \<open>getLastFileIndex\<close> returns \<open>0\<close> and
  \<open>determineNextFileIndex\<close> returns \<open>1\<close>.
\<close>

theorem file_index_helpers:
  fixes files :: "string list" and p :: string
  defines "csvFiles \<equiv>
    filter (\<lambda>file. startsWith file (p @ ''_'') \<and> endsWith file ''.csv'') files"
  shows "(csvFiles \<noteq> [] \<longrightarrow>
            getLastFileIndex files p = determineNextFileIndex files p \<and>
            (\<forall>indices. map_indices csvFiles = Inr indices \<longrightarrow>
               determineNextFileIndex files p = Inr (Max (set indices) + 1))) \<and>
         (csvFiles = [] \<longrightarrow>
            getLastFileIndex files p = Inr 0 \<and> determineNextFileIndex files p = Inr 1)"
proof (cases "csvFiles = []")
  case True
  then show ?thesis
    unfolding csvFiles_def by (simp add: getLastFileIndex_def determineNextFileIndex_def)
next
  case False
  show ?thesis
  proof (cases "map_indices csvFiles")
    case (Inl e)
    with False show ?thesis
      unfolding csvFiles_def by (simp add: getLastFileIndex_def determineNextFileIndex_def)
  next
    case (Inr indices)
    then have "length indices = length csvFiles"
      by (rule map_indices_length)
    with False have "indices \<noteq> []"
      by auto
    with False Inr show ?thesis
      unfolding csvFiles_def by (simp add: getLastFileIndex_def determineNextFileIndex_def)
  qed
qed

theorem file_index_helpers_witness:
  "getLastFileIndex [''source_simulation_3.csv'', ''core.csv''] ''source_simulation'' = Inr 4 \<and>
   determineNextFileIndex [''source_simulation_3.csv'', ''core.csv''] ''source_simulation'' = Inr 4 \<and>
   getLastFileIndex [''core.csv''] ''source_simulation'' = Inr 0 \<and>
   determineNextFileIndex [''core.csv''] ''source_simulation'' = Inr 1"
  using file_index_helpers [of "''source_simulation''" "[''source_simulation_3.csv'', ''core.csv'']"]
    file_index_helpers [of "''source_simulation''" "[''core.csv'']"]
  by (simp add: startsWith_def endsWith_def file_index_def match_index_def is_digit_def
      parseInt_def digit_value_def suffix_to_prefix)

text \<open>
  Claim C10 as stated fails on the empty directory, where the helper used at start-up
  returns \<open>0\<close> and the helper used by each run returns \<open>1\<close>.
\<close>

theorem file_index_helpers_counterexample:
  "getLastFileIndex [] ''source_simulation'' \<noteq> determineNextFileIndex [] ''source_simulation''"
  by (simp add: getLastFileIndex_def determineNextFileIndex_def)

subsection \<open>Queries on the run log by id\<close>

text \<open>
  Claim C9. For every list of requested ids and every stored ledger, the by-ids query
  answers with exactly one entry per requested id, in request order: an id between 1 and
  the number of stored rows yields that row, any other id yields the not-available
  marker for that entry only, and no id makes the query throw.
\<close>

theorem by_ids_query:
  assumes "map_of (coreFilePath st) coreFileName = Some rows"
  shows "\<exists>entries.
           getSimulationsByIds st ids = Inr entries \<and>
           length entries = length ids \<and>
           (\<forall>k < length ids.
              entries ! k =
                (case ids ! k of
                   Some i \<Rightarrow>
                     if 1 \<le> i \<and> i \<le> int (length rows) then Record (rows ! nat (i - 1))
                     else NotAvailable (Some i)
                 | None \<Rightarrow> NotAvailable None))"
proof -
  have "getSimulationsByIds st ids = Inr (map (lookup_id rows) ids)"
    using assms by (simp add: getSimulationsByIds_def readCoreSimulations_def existsSync_def)
  moreover have "map (lookup_id rows) ids ! k =
      (case ids ! k of
         Some i \<Rightarrow>
           if 1 \<le> i \<and> i \<le> int (length rows) then Record (rows ! nat (i - 1))
           else NotAvailable (Some i)
       | None \<Rightarrow> NotAvailable None)" if "k < length ids" for k
    using that by (auto simp: lookup_id_def split: option.splits)
  ultimately show ?thesis
    by simp
qed

theorem by_ids_query_witness:
  "map_of (coreFilePath example_engine) coreFileName =
     Some [example_row 1 10 10, example_row 2 5 15] \<and>
   getSimulationsByIds example_engine [Some 2, Some 3, None, Some 0, Some 1] =
     Inr [Record (example_row 2 5 15), NotAvailable (Some 3), NotAvailable None,
          NotAvailable (Some 0), Record (example_row 1 10 10)]"
proof -
  have stored: "map_of (coreFilePath example_engine) coreFileName =
      Some [example_row 1 10 10, example_row 2 5 15]"
    by (simp add: example_engine_def static_engine_def)
  show ?thesis
    using by_ids_query [OF stored, of "[Some 2, Some 3, None, Some 0, Some 1]"] stored
    by (simp add: getSimulationsByIds_def readCoreSimulations_def existsSync_def lookup_id_def)
qed

subsection \<open>The random-walk sampler\<close>

lemma reroll_nonzero:
  "nonzero_draws rs = u # us \<Longrightarrow>
     \<exists>rs'. reroll rs = Some (u, rs') \<and> nonzero_draws rs' = us \<and> suffix rs' rs"
proof (induction rs)
  case Nil
  then show ?case by (simp add: nonzero_draws_def)
next
  case (Cons r rs)
  show ?case
  proof (cases "r = 0")
    case True
    with Cons.prems have "nonzero_draws rs = u # us"
      by (simp add: nonzero_draws_def)
    from Cons.IH [OF this] True show ?thesis
      by (auto intro: suffix_ConsI)
  next
    case False
    with Cons.prems show ?thesis
      by (auto simp: nonzero_draws_def intro: suffix_ConsI)
  qed
qed

lemma reroll_exhausted: "nonzero_draws rs = [] \<Longrightarrow> reroll rs = None"
  by (induction rs) (auto simp: nonzero_draws_def split: if_splits)

lemma gaussianRandom_nonzero:
  assumes "nonzero_draws rs = u # v # ws"
  shows "\<exists>rs'. gaussianRandom rs = Some (box_muller u v, rs') \<and> nonzero_draws rs' = ws \<and>
           suffix rs' rs"
proof -
  from reroll_nonzero [OF assms] obtain rs1 where
    r1: "reroll rs = Some (u, rs1)" "nonzero_draws rs1 = v # ws" "suffix rs1 rs"
    by blast
  from reroll_nonzero [OF r1(2)] obtain rs2 where
    r2: "reroll rs1 = Some (v, rs2)" "nonzero_draws rs2 = ws" "suffix rs2 rs1"
    by blast
  from r1 r2 show ?thesis
    by (auto simp: gaussianRandom_def box_muller_def intro: suffix_order.trans)
qed

lemma two_draws:
  "2 \<le> length xs \<Longrightarrow> \<exists>u v ws. xs = u # v # ws"
  by (cases xs; cases "tl xs") auto

lemma price_loop_shocks:
  "2 * k \<le> length (nonzero_draws rs) \<Longrightarrow>
     \<exists>rs'. price_loop k vol days pr rs =
             Some (pr * prod_list
                     (map (\<lambda>(u, v). daily_shock vol days (box_muller u v))
                        (take k (draw_pairs (nonzero_draws rs)))), rs') \<and>
           nonzero_draws rs' = drop (2 * k) (nonzero_draws rs) \<and> suffix rs' rs"
proof (induction k arbitrary: pr rs)
  case 0
  show ?case by simp
next
  case (Suc k)
  from Suc.prems obtain u v ws where nz: "nonzero_draws rs = u # v # ws"
    using two_draws [of "nonzero_draws rs"] by auto
  from gaussianRandom_nonzero [OF nz] obtain rs1 where
    g: "gaussianRandom rs = Some (box_muller u v, rs1)" "nonzero_draws rs1 = ws" "suffix rs1 rs"
    by blast
  have "2 * k \<le> length (nonzero_draws rs1)"
    using Suc.prems nz g(2) by simp
  from Suc.IH [OF this, of "pr * daily_shock vol days (box_muller u v)"] obtain rs' where
    l: "price_loop k vol days (pr * daily_shock vol days (box_muller u v)) rs1 =
          Some (pr * daily_shock vol days (box_muller u v) * prod_list
                  (map (\<lambda>(u, v). daily_shock vol days (box_muller u v))
                     (take k (draw_pairs (nonzero_draws rs1)))), rs')"
       "nonzero_draws rs' = drop (2 * k) (nonzero_draws rs1)" "suffix rs' rs1"
    by blast
  have "price_loop (Suc k) vol days pr rs =
          Some (pr * prod_list
                  (map (\<lambda>(u, v). daily_shock vol days (box_muller u v))
                     (take (Suc k) (draw_pairs (nonzero_draws rs)))), rs')"
    using g(1) l(1) nz g(2) by (simp add: daily_shock_def mult.assoc)
  moreover have "nonzero_draws rs' = drop (2 * Suc k) (nonzero_draws rs)"
    using l(2) nz g(2) by simp
  moreover have "suffix rs' rs"
    using l(3) g(3) by (rule suffix_order.trans)
  ultimately show ?case by blast
qed

lemma price_loop_exhausted:
  "length (nonzero_draws rs) < 2 * k \<Longrightarrow> price_loop k vol days pr rs = None"
proof (induction k arbitrary: pr rs)
  case 0
  then show ?case by simp
next
  case (Suc k)
  show ?case
  proof (cases "gaussianRandom rs")
    case None
    then show ?thesis by simp
  next
    case (Some a)
    then obtain u rs1 v rs2 where
      r: "reroll rs = Some (u, rs1)" "reroll rs1 = Some (v, rs2)" "a = (box_muller u v, rs2)"
      by (auto simp: gaussianRandom_def box_muller_def split: option.splits)
    have "nonzero_draws rs \<noteq> []"
      using r(1) reroll_exhausted [of rs] by auto
    then obtain u' us where nz: "nonzero_draws rs = u' # us"
      by (cases "nonzero_draws rs") auto
    from reroll_nonzero [OF nz] r(1) have n1: "nonzero_draws rs1 = us"
      by auto
    have "us \<noteq> []"
      using r(2) reroll_exhausted [of rs1] n1 by auto
    then obtain v' ws where nz1: "us = v' # ws"
      by (cases us) auto
    from reroll_nonzero [of rs1 v' ws] n1 nz1 r(2) have n2: "nonzero_draws rs2 = ws"
      by auto
    have "length (nonzero_draws rs2) < 2 * k"
      using Suc.prems nz nz1 n2 by simp
    from Suc.IH [OF this] Some r(3) show ?thesis
      by simp
  qed
qed

lemma draw_pairs_nonzero:
  "(u, v) \<in> set (draw_pairs xs) \<Longrightarrow> u \<in> set xs \<and> v \<in> set xs"
  by (induction xs rule: draw_pairs.induct) auto

text \<open>
  Claim C8. For every start price, volatility \<open>v\<close> and horizon of \<open>H\<close> days, one sampled
  terminal price is the start price multiplied by \<open>H\<close> daily shocks
  \<open>exp (v * Z / sqrt H)\<close>, where each \<open>Z\<close> is the Box-Muller transform of two draws, draws of
  exactly zero being re-rolled, so that draws from \<open>[0, 1)\<close> are used only when they lie in
  \<open>(0, 1)\<close>. The sampler is a function of its inputs and of the draws alone; it reads the
  draws from the front and leaves the rest. It returns exactly when the supply holds the
  \<open>2 * H\<close> non-zero draws it needs.
\<close>

theorem sampler_terminal_price:
  "(2 * nat days \<le> length (nonzero_draws rs) \<longrightarrow>
      (\<exists>rest.
         simulate_one startPrice vol days rs =
           Some (startPrice * prod_list (path_shocks vol days rs), rest) \<and>
         nonzero_draws rest = drop (2 * nat days) (nonzero_draws rs) \<and> suffix rest rs) \<and>
      length (path_shocks vol days rs) = nat days \<and>
      (\<forall>(u, v) \<in> set (take (nat days) (draw_pairs (nonzero_draws rs))).
         u \<noteq> 0 \<and> v \<noteq> 0 \<and>
         ((\<forall>r \<in> set rs. 0 \<le> r \<and> r < 1) \<longrightarrow> 0 < u \<and> u < 1 \<and> 0 < v \<and> v < 1))) \<and>
   (length (nonzero_draws rs) < 2 * nat days \<longrightarrow> simulate_one startPrice vol days rs = None)"
proof (intro conjI impI)
  assume enough: "2 * nat days \<le> length (nonzero_draws rs)"
  from price_loop_shocks [OF enough, of vol days startPrice]
  show "\<exists>rest.
         simulate_one startPrice vol days rs =
           Some (startPrice * prod_list (path_shocks vol days rs), rest) \<and>
         nonzero_draws rest = drop (2 * nat days) (nonzero_draws rs) \<and> suffix rest rs"
    by (simp add: simulate_one_def path_shocks_def)
  have "nat days \<le> length (draw_pairs xs)" if "2 * nat days \<le> length xs" for xs :: "real list"
    using that
  proof (induction xs arbitrary: days rule: draw_pairs.induct)
    case (1 u v rs)
    show ?case
    proof (cases "nat days")
      case 0
      then show ?thesis by simp
    next
      case (Suc m)
      then have "nat (days - 1) = m" by simp
      moreover have "2 * nat (days - 1) \<le> length rs"
        using "1.prems" Suc by simp
      ultimately show ?thesis
        using "1.IH" [of "days - 1"] Suc by simp
    qed
  qed simp_all
  from this [OF enough] show "length (path_shocks vol days rs) = nat days"
    by (simp add: path_shocks_def)
  show "\<forall>(u, v) \<in> set (take (nat days) (draw_pairs (nonzero_draws rs))).
         u \<noteq> 0 \<and> v \<noteq> 0 \<and>
         ((\<forall>r \<in> set rs. 0 \<le> r \<and> r < 1) \<longrightarrow> 0 < u \<and> u < 1 \<and> 0 < v \<and> v < 1)"
  proof (clarify, intro conjI impI)
    fix u v
    assume "(u, v) \<in> set (take (nat days) (draw_pairs (nonzero_draws rs)))"
    then have "(u, v) \<in> set (draw_pairs (nonzero_draws rs))"
      by (rule in_set_takeD)
    then have mem: "u \<in> set (nonzero_draws rs) \<and> v \<in> set (nonzero_draws rs)"
      by (rule draw_pairs_nonzero)
    then show "u \<noteq> 0" "v \<noteq> 0"
      by (simp_all add: nonzero_draws_def)
    assume "\<forall>r \<in> set rs. 0 \<le> r \<and> r < 1"
    with mem show "0 < u" "u < 1" "0 < v" "v < 1"
      by (force simp: nonzero_draws_def)+
  qed
next
  assume "length (nonzero_draws rs) < 2 * nat days"
  then show "simulate_one startPrice vol days rs = None"
    by (simp add: simulate_one_def price_loop_exhausted)
qed

theorem sampler_terminal_price_witness:
  "2 * nat 1 \<le> length (nonzero_draws [0, 1 / 2, 0, 0, 1 / 4, 1 / 3]) \<and>
   (\<exists>rest.
      simulate_one 100 (1 / 5) 1 [0, 1 / 2, 0, 0, 1 / 4, 1 / 3] =
        Some (100 * daily_shock (1 / 5) 1 (box_muller (1 / 2) (1 / 4)), rest) \<and>
      nonzero_draws rest = [1 / 3]) \<and>
   length (nonzero_draws [0, 1 / 2, 0]) < 2 * nat 1 \<and>
   simulate_one 100 (1 / 5) 1 [0, 1 / 2, 0] = None"
  using sampler_terminal_price [of 1 "[0, 1 / 2, 0, 0, 1 / 4, 1 / 3]" 100 "1 / 5"]
    sampler_terminal_price [of 1 "[0, 1 / 2, 0]" 100 "1 / 5"]
  by (auto simp: nonzero_draws_def path_shocks_def)

subsection \<open>Batching of a full simulation\<close>

lemma array_from_enough:
  "2 * nat days * n \<le> length (nonzero_draws rs) \<Longrightarrow>
     \<exists>ps rs'. array_from n c vol days rs = Some (ps, rs') \<and> length ps = n \<and>
       nonzero_draws rs' = drop (2 * nat days * n) (nonzero_draws rs)"
proof (induction n arbitrary: rs)
  case 0
  show ?case by simp
next
  case (Suc n)
  have "2 * nat days \<le> length (nonzero_draws rs)"
    using Suc.prems by simp
  from price_loop_shocks [OF this, of vol days c] obtain p rs1 where
    one: "simulate_one c vol days rs = Some (p, rs1)"
      "nonzero_draws rs1 = drop (2 * nat days) (nonzero_draws rs)"
    by (auto simp: simulate_one_def)
  have "2 * nat days * n \<le> length (nonzero_draws rs1)"
    using Suc.prems one(2) by simp
  from Suc.IH [OF this] obtain ps rs' where
    more: "array_from n c vol days rs1 = Some (ps, rs')" "length ps = n"
      "nonzero_draws rs' = drop (2 * nat days * n) (nonzero_draws rs1)"
    by blast
  have "nonzero_draws rs' = drop (2 * nat days * Suc n) (nonzero_draws rs)"
    using more(3) one(2) by (simp add: add.commute)
  with one(1) more(1,2) show ?case
    by simp
qed

lemma run_batches_enough:
  "2 * nat days * sum_list ns \<le> length (nonzero_draws rs) \<Longrightarrow>
     \<exists>batches rest. run_batches c vol days ns rs = Some (batches, rest) \<and>
       map length batches = ns"
proof (induction ns arbitrary: rs)
  case Nil
  show ?case by simp
next
  case (Cons n ns)
  have "2 * nat days * n \<le> length (nonzero_draws rs)"
    using Cons.prems by (simp add: distrib_left)
  from array_from_enough [OF this, of c vol] obtain ps rs1 where
    first: "array_from n c vol days rs = Some (ps, rs1)" "length ps = n"
      "nonzero_draws rs1 = drop (2 * nat days * n) (nonzero_draws rs)"
    by blast
  have "2 * nat days * sum_list ns \<le> length (nonzero_draws rs1)"
    using Cons.prems first(3) by (simp add: distrib_left)
  from Cons.IH [OF this] obtain batches rest where
    "run_batches c vol days ns rs1 = Some (batches, rest)" "map length batches = ns"
    by blast
  with first(1,2) show ?case
    by simp
qed

lemma simulatePrices_valid:
  "0 < c \<Longrightarrow> 0 < n \<Longrightarrow> 0 < vol \<Longrightarrow> 0 < days \<Longrightarrow>
     simulatePrices (Some c) n vol days pw pool =
       (case array_from (nat n) c vol days (turbit_draws pool) of
          None \<Rightarrow> None
        | Some (ps, rs') \<Rightarrow>
            Some (Inr (ps, \<lparr>turbit_calls = turbit_calls pool @ [nat n], turbit_draws = rs'\<rparr>)))"
  by (simp add: simulatePrices_def validateInputs_def turbit_run_def split: option.splits)

lemma batchCount_bounds:
  "5000 * batchCount n - 5000 < n \<and> n \<le> 5000 * batchCount n"
proof -
  have count: "batchCount n = - (- n div 5000)"
    unfolding batchCount_def desiredBatchSize_def
    using ceiling_divide_eq_div [of n 5000] by simp
  define q r where "q = - n div 5000" and "r = (- n) mod 5000"
  have "5000 * q + r = - n" "0 \<le> r" "r < 5000"
    unfolding q_def r_def by simp_all
  then have "5000 * - q - 5000 < n \<and> n \<le> 5000 * - q"
    by (intro conjI) linarith+
  then show ?thesis
    unfolding count q_def .
qed

lemma batchSize_positive:
  assumes "0 < n" "int i < batchCount n"
  shows "0 < batchSize n i"
  using assms batchCount_bounds [of n]
  by (simp add: batchSize_def desiredBatchSize_def)

lemma batch_loop_run:
  assumes valid: "0 < c" "0 < n" "0 < vol" "0 < days"
  shows "i \<le> nat (batchCount n) \<Longrightarrow>
     batch_loop (Some c) n vol days pw i acc pool =
       (case run_batches c vol days (map (\<lambda>j. nat (batchSize n j)) [i..<nat (batchCount n)])
               (turbit_draws pool) of
          None \<Rightarrow> None
        | Some (batches, rest) \<Rightarrow>
            Some (Inr (acc @ concat batches,
                       \<lparr>turbit_calls =
                          turbit_calls pool @ map (\<lambda>j. nat (batchSize n j)) [i..<nat (batchCount n)],
                        turbit_draws = rest\<rparr>)))"
proof (induction "nat (batchCount n) - i" arbitrary: i acc pool)
  case 0
  then have "\<not> int i < batchCount n" "[i..<nat (batchCount n)] = []"
    by auto
  then show ?case
    by (subst batch_loop.simps) simp
next
  case (Suc k)
  then have less: "int i < batchCount n" and lt: "i < nat (batchCount n)"
    by auto
  have upt: "[i..<nat (batchCount n)] = i # [Suc i..<nat (batchCount n)]"
    using lt by (rule upt_conv_Cons)
  have pos: "0 < batchSize n i"
    using valid(2) less by (rule batchSize_positive)
  have step: "k = nat (batchCount n) - Suc i" "Suc i \<le> nat (batchCount n)"
    using Suc.hyps(2) lt by auto
  show ?case
    by (subst batch_loop.simps)
      (simp add: less upt simulatePrices_valid [OF valid(1) pos valid(3,4)]
        Suc.hyps(1) [OF step] split: option.splits)
qed

lemma batchCount_ceiling: "\<lceil>real_of_int n / 5000\<rceil> = batchCount n"
  by (simp add: batchCount_def desiredBatchSize_def)

lemma batch_sizes_loop:
  assumes "0 < n"
  shows "batch_sizes n = map (\<lambda>j. nat (batchSize n j)) [0..<nat (batchCount n)]"
proof -
  define count where "count = nat (batchCount n)"
  have count: "0 < count" "batchCount n = int count"
    using assms batchCount_bounds [of n] unfolding count_def by auto
  then obtain m where m: "count = Suc m"
    by (cases count) auto
  have body: "map (\<lambda>j. nat (batchSize n j)) [0..<m] = replicate m 5000"
    by (rule nth_equalityI) (auto simp: batchSize_def count m desiredBatchSize_def)
  have final: "nat (batchSize n m) = nat n - 5000 * m"
    using assms
    by (simp add: batchSize_def count m desiredBatchSize_def nat_diff_distrib nat_mult_distrib)
  show ?thesis
    unfolding batch_sizes_def batchCount_ceiling Let_def count_def [symmetric]
    by (simp add: m body final)
qed

lemma sum_list_batch_sizes:
  assumes "0 < n"
  shows "sum_list (batch_sizes n) = nat n"
    and "length (batch_sizes n) = nat \<lceil>real_of_int n / 5000\<rceil>"
proof -
  define count where "count = nat (batchCount n)"
  have count: "0 < count" "batchCount n = int count"
    using assms batchCount_bounds [of n] unfolding count_def by auto
  have "5000 * int count - 5000 < n"
    using batchCount_bounds [of n] count(2) by simp
  then have le: "5000 * (count - 1) \<le> nat n"
    using count(1) by (cases count) auto
  show "sum_list (batch_sizes n) = nat n"
    unfolding batch_sizes_def batchCount_ceiling Let_def count_def [symmetric]
    using le by (simp add: sum_list_replicate)
  show "length (batch_sizes n) = nat \<lceil>real_of_int n / 5000\<rceil>"
    unfolding batch_sizes_def batchCount_ceiling Let_def count_def [symmetric]
    using count(1) by simp
qed

lemma executeFullSimulation_batches:
  assumes "0 < c" "0 < n" "0 < vol" "0 < days"
    and "2 * nat days * nat n \<le> length (nonzero_draws (turbit_draws pool))"
  shows "\<exists>batches rest.
           run_batches c vol days (batch_sizes n) (turbit_draws pool) = Some (batches, rest) \<and>
           executeFullSimulation (Some c) n vol days pw pool =
             Some (Inr (concat batches,
                        \<lparr>turbit_calls = turbit_calls pool @ batch_sizes n, turbit_draws = rest\<rparr>)) \<and>
           map length batches = batch_sizes n \<and>
           int (length batches) = \<lceil>real_of_int n / 5000\<rceil> \<and>
           int (length (concat batches)) = n"
proof -
  have "2 * nat days * sum_list (batch_sizes n) \<le> length (nonzero_draws (turbit_draws pool))"
    using assms(5) sum_list_batch_sizes(1) [OF assms(2)] by simp
  from run_batches_enough [OF this, of c vol] obtain batches rest where
    run: "run_batches c vol days (batch_sizes n) (turbit_draws pool) = Some (batches, rest)"
      "map length batches = batch_sizes n"
    by blast
  have "executeFullSimulation (Some c) n vol days pw pool =
      Some (Inr (concat batches,
                 \<lparr>turbit_calls = turbit_calls pool @ batch_sizes n, turbit_draws = rest\<rparr>))"
    unfolding executeFullSimulation_def
    using batch_loop_run [OF assms(1-4), of 0 pw "[]" pool] run(1)
    by (simp add: batch_sizes_loop [OF assms(2)])
  moreover have "length batches = length (batch_sizes n)"
    using run(2) by (metis length_map)
  then have "int (length batches) = \<lceil>real_of_int n / 5000\<rceil>"
    using sum_list_batch_sizes(2) [OF assms(2)] assms(2) by simp
  moreover have "length (concat batches) = sum_list (map length batches)"
    by (simp add: length_concat)
  then have "int (length (concat batches)) = n"
    using run(2) sum_list_batch_sizes(1) [OF assms(2)] assms(2) by simp
  ultimately show ?thesis
    using run by blast
qed

lemma executeFullSimulation_returns:
  assumes "0 < c" "0 < n" "0 < vol" "0 < days"
    and "2 * nat days * nat n \<le> length (nonzero_draws rs)"
  shows "\<exists>allPrices rest.
           executeFullSimulation (Some c) n vol days pw (fresh_pool rs) =
             Some (Inr (allPrices, rest)) \<and>
           int (length allPrices) = n"
proof -
  have "2 * nat days * nat n \<le> length (nonzero_draws (turbit_draws (fresh_pool rs)))"
    using assms(5) by (simp add: fresh_pool_def)
  from executeFullSimulation_batches [OF assms(1-4) this, of pw] show ?thesis
    by blast
qed

lemma executeFullSimulation_no_batches:
  "n \<le> 0 \<Longrightarrow> executeFullSimulation cp n vol days pw pool = Some (Inr ([], pool))"
  using batchCount_bounds [of n]
  by (simp add: executeFullSimulation_def batch_loop.simps)

lemma executeFullSimulation_rejects:
  assumes "0 < n" "validateInputs cp (batchSize n 0) vol days = Some e"
  shows "executeFullSimulation cp n vol days pw pool = Some (Inl e)"
proof -
  have "int 0 < batchCount n"
    using assms(1) batchCount_bounds [of n] by simp
  then show ?thesis
    using assms(2) by (simp add: executeFullSimulation_def batch_loop.simps simulatePrices_def)
qed

lemma batchSize_values:
  assumes "int i < batchCount n"
  shows "batchSize n i =
     (if int i = \<lceil>real_of_int n / 5000\<rceil> - 1
      then n - 5000 * (\<lceil>real_of_int n / 5000\<rceil> - 1) else 5000)"
  by (simp add: batchSize_def batchCount_ceiling desiredBatchSize_def)

text \<open>
  Claim C7. For every valid request with simulation count \<open>N\<close> (and a supply holding the
  non-zero draws that \<open>N\<close> paths need), the full simulation returns. It calls the worker
  pool once for each batch, in batch order: \<open>\<lceil>N / 5000\<rceil>\<close> calls, every one for 5000 prices
  except the last, which takes the remainder \<open>N - 5000 * (\<lceil>N / 5000\<rceil> - 1)\<close>. Each batch is
  what the pool returns for its call, and the result is the concatenation of the batches
  in batch order, an array of exactly \<open>N\<close> prices.
\<close>

theorem full_simulation_batches:
  assumes "0 < c" "0 < n" "0 < vol" "0 < days"
    and "2 * nat days * nat n \<le> length (nonzero_draws (turbit_draws pool))"
  shows "\<exists>batches pool'.
           executeFullSimulation (Some c) n vol days pw pool = Some (Inr (concat batches, pool')) \<and>
           turbit_calls pool' = turbit_calls pool @ map length batches \<and>
           run_batches c vol days (map length batches) (turbit_draws pool) =
             Some (batches, turbit_draws pool') \<and>
           int (length batches) = batchCount n \<and>
           batchCount n = \<lceil>real_of_int n / 5000\<rceil> \<and>
           (\<forall>i < length batches.
              int (length (batches ! i)) = batchSize n i \<and>
              batchSize n i =
                (if int i = \<lceil>real_of_int n / 5000\<rceil> - 1
                 then n - 5000 * (\<lceil>real_of_int n / 5000\<rceil> - 1) else 5000)) \<and>
           map length batches = batch_sizes n \<and>
           int (length (concat batches)) = n"
proof -
  from executeFullSimulation_batches [OF assms, of pw] obtain batches rest where
    run: "run_batches c vol days (batch_sizes n) (turbit_draws pool) = Some (batches, rest)"
      "executeFullSimulation (Some c) n vol days pw pool =
         Some (Inr (concat batches,
                    \<lparr>turbit_calls = turbit_calls pool @ batch_sizes n, turbit_draws = rest\<rparr>))"
      "map length batches = batch_sizes n"
      "int (length batches) = \<lceil>real_of_int n / 5000\<rceil>"
      "int (length (concat batches)) = n"
    by blast
  let ?pool' = "\<lparr>turbit_calls = turbit_calls pool @ batch_sizes n, turbit_draws = rest\<rparr>"
  have count: "int (length batches) = batchCount n"
    using run(4) by (simp add: batchCount_ceiling)
  have sizes: "int (length (batches ! i)) = batchSize n i \<and>
      batchSize n i =
        (if int i = \<lceil>real_of_int n / 5000\<rceil> - 1
         then n - 5000 * (\<lceil>real_of_int n / 5000\<rceil> - 1) else 5000)" if "i < length batches" for i
  proof -
    from that count have less: "int i < batchCount n" and lt: "i < nat (batchCount n)"
      by simp_all
    have "length (batches ! i) = map length batches ! i"
      using that by simp
    also have "\<dots> = map (\<lambda>j. nat (batchSize n j)) [0..<nat (batchCount n)] ! i"
      by (simp only: run(3) batch_sizes_loop [OF assms(2)])
    also have "\<dots> = nat (batchSize n i)"
      using lt by simp
    finally have "int (length (batches ! i)) = batchSize n i"
      using batchSize_positive [OF assms(2) less] by simp
    with batchSize_values [OF less] show ?thesis
      by simp
  qed
  show ?thesis
  proof (intro exI [of _ batches] exI [of _ ?pool'] conjI allI impI)
    show "executeFullSimulation (Some c) n vol days pw pool = Some (Inr (concat batches, ?pool'))"
      by (rule run(2))
    show "turbit_calls ?pool' = turbit_calls pool @ map length batches"
      by (simp add: run(3))
    show "run_batches c vol days (map length batches) (turbit_draws pool) =
        Some (batches, turbit_draws ?pool')"
      using run(1) by (simp add: run(3))
    show "int (length batches) = batchCount n"
      by (rule count)
    show "batchCount n = \<lceil>real_of_int n / 5000\<rceil>"
      by (simp add: batchCount_ceiling)
    show "map length batches = batch_sizes n"
      by (rule run(3))
    show "int (length (concat batches)) = n"
      by (rule run(5))
  qed (use sizes in simp_all)
qed

lemma nonzero_steady_draws: "length (nonzero_draws (steady_draws k)) = k"
  by (simp add: nonzero_draws_def steady_draws_def)

theorem full_simulation_batches_witness:
  "(0 :: real) < 50000 \<and> (0 :: int) < 5001 \<and> (0 :: real) < 1 / 5 \<and> (0 :: int) < 1 \<and>
   2 * nat 1 * nat 5001 \<le> length (nonzero_draws (turbit_draws (fresh_pool (steady_draws 10002)))) \<and>
   (\<exists>batches pool'.
      executeFullSimulation (Some 50000) 5001 (1 / 5) 1 4 (fresh_pool (steady_draws 10002)) =
        Some (Inr (concat batches, pool')) \<and>
      turbit_calls pool' = [5000, 1] \<and>
      map length batches = [5000, 1] \<and>
      int (length (concat batches)) = 5001)"
proof -
  have sizes: "batch_sizes 5001 = [5000, 1]"
    by (simp add: batch_sizes_def)
  have valid: "(0 :: real) < 50000" "(0 :: int) < 5001" "(0 :: real) < 1 / 5" "(0 :: int) < 1"
    by simp_all
  have enough: "2 * nat 1 * nat 5001
      \<le> length (nonzero_draws (turbit_draws (fresh_pool (steady_draws 10002))))"
    by (simp add: fresh_pool_def nonzero_steady_draws)
  from full_simulation_batches [OF valid enough, of 4] obtain batches pool' where
    run: "executeFullSimulation (Some 50000) 5001 (1 / 5) 1 4 (fresh_pool (steady_draws 10002)) =
       Some (Inr (concat batches, pool'))"
      "turbit_calls pool' = turbit_calls (fresh_pool (steady_draws 10002)) @ map length batches"
      "map length batches = batch_sizes 5001"
      "int (length (concat batches)) = 5001"
    by (elim exE conjE)
  have "\<exists>batches pool'.
      executeFullSimulation (Some 50000) 5001 (1 / 5) 1 4 (fresh_pool (steady_draws 10002)) =
        Some (Inr (concat batches, pool')) \<and>
      turbit_calls pool' = [5000, 1] \<and>
      map length batches = [5000, 1] \<and>
      int (length (concat batches)) = 5001"
  proof (intro exI conjI)
    show "executeFullSimulation (Some 50000) 5001 (1 / 5) 1 4 (fresh_pool (steady_draws 10002)) =
        Some (Inr (concat batches, pool'))"
      by (rule run(1))
    show "turbit_calls pool' = [5000, 1]"
      unfolding run(2,3) sizes by (simp add: fresh_pool_def)
    show "map length batches = [5000, 1]"
      using run(3) unfolding sizes .
    show "int (length (concat batches)) = 5001"
      by (rule run(4))
  qed
  then show ?thesis
    by (intro conjI valid enough)
qed

subsection \<open>Files\<close>

lemma map_of_appendCSV:
  "map_of (appendCSV file data dir) =
     (map_of dir)(file \<mapsto> (case map_of dir file of None \<Rightarrow> [] | Some old \<Rightarrow> old) @ data)"
  by (simp add: appendCSV_def update_conv')

lemma map_of_writeCSV: "map_of (writeCSV file data dir) = (map_of dir)(file \<mapsto> data)"
  by (simp add: writeCSV_def map_of_appendCSV update_conv')

lemma chunk_rows_numbered:
  assumes "length sl \<le> 5000"
  shows "chunk_rows cp sl = map (\<lambda>(k, p). numbered_row cp k p) (enumerate (5000 * c) sl)"
proof (rule nth_equalityI)
  show "length (chunk_rows cp sl) = length (map (\<lambda>(k, p). numbered_row cp k p) (enumerate (5000 * c) sl))"
    by (simp add: chunk_rows_def)
next
  fix i
  assume "i < length (chunk_rows cp sl)"
  then have i: "i < length sl"
    by (simp add: chunk_rows_def)
  with assms have "(5000 * c + i) mod 5000 = i"
    by simp
  with i show "chunk_rows cp sl ! i = map (\<lambda>(k, p). numbered_row cp k p) (enumerate (5000 * c) sl) ! i"
    by (simp add: chunk_rows_def numbered_row_def nth_enumerate_eq)
qed

lemma chunks_numbered:
  "concat (map (\<lambda>j. chunk_rows cp (slice ps (j * 5000) ((j + 1) * 5000))) [0..<c]) =
     map (\<lambda>(k, p). numbered_row cp k p) (enumerate 0 (take (5000 * c) ps))"
proof (induction c)
  case 0
  show ?case by simp
next
  case (Suc c)
  have "5000 * Suc c = 5000 * c + 5000" "(c + 1) * 5000 - c * 5000 = 5000" "c * 5000 = 5000 * c"
    by simp_all
  then have split: "take (5000 * Suc c) ps = take (5000 * c) ps @ slice ps (c * 5000) ((c + 1) * 5000)"
    by (simp only: slice_def take_add)
  have len: "length (slice ps (c * 5000) ((c + 1) * 5000)) \<le> 5000"
    by (simp add: slice_def)
  show ?case
  proof (cases "5000 * c \<le> length ps")
    case True
    then have length: "length (take (5000 * c) ps) = 5000 * c"
      by simp
    let ?sl = "slice ps (c * 5000) ((c + 1) * 5000)"
    let ?g = "\<lambda>(k, p). numbered_row cp k p"
    have "concat (map (\<lambda>j. chunk_rows cp (slice ps (j * 5000) ((j + 1) * 5000))) [0..<Suc c]) =
        concat (map (\<lambda>j. chunk_rows cp (slice ps (j * 5000) ((j + 1) * 5000))) [0..<c]) @
          chunk_rows cp ?sl"
      by simp
    also have "\<dots> = map ?g (enumerate 0 (take (5000 * c) ps)) @ map ?g (enumerate (5000 * c) ?sl)"
      unfolding Suc.IH chunk_rows_numbered [OF len, of cp c] ..
    also have "\<dots> = map ?g (enumerate 0 (take (5000 * c) ps @ ?sl))"
      by (simp only: enumerate_append_eq length map_append add_0)
    also have "\<dots> = map ?g (enumerate 0 (take (5000 * Suc c) ps))"
      by (simp only: split)
    finally show ?thesis .
  next
    case False
    then have empty: "slice ps (c * 5000) ((c + 1) * 5000) = []"
      by (simp add: slice_def)
    let ?g = "\<lambda>(k, p). numbered_row cp k p"
    have "concat (map (\<lambda>j. chunk_rows cp (slice ps (j * 5000) ((j + 1) * 5000))) [0..<Suc c]) =
        concat (map (\<lambda>j. chunk_rows cp (slice ps (j * 5000) ((j + 1) * 5000))) [0..<c]) @
          chunk_rows cp (slice ps (c * 5000) ((c + 1) * 5000))"
      by simp
    also have "\<dots> = map ?g (enumerate 0 (take (5000 * c) ps))"
      unfolding Suc.IH empty by (simp add: chunk_rows_def)
    also have "\<dots> = map ?g (enumerate 0 (take (5000 * Suc c) ps))"
      unfolding split empty by simp
    finally show ?thesis .
  qed
qed

lemma write_loop_file:
  assumes count: "count = \<lceil>real_of_int n / 5000\<rceil>"
  shows "map_of dir file = Some old \<Longrightarrow> i \<le> nat count \<Longrightarrow>
     map_of (write_loop n cp ps file i dir) =
       (map_of dir)(file \<mapsto>
          old @ concat (map (\<lambda>j. chunk_rows cp (slice ps (j * 5000) ((j + 1) * 5000)))
                     [i..<nat count]))"
proof (induction "nat count - i" arbitrary: i dir old)
  case 0
  then have "\<not> int i < count" "[i..<nat count] = []"
    by auto
  with "0.prems" show ?case
    by (subst write_loop.simps) (auto simp: fun_upd_idem count [symmetric])
next
  case (Suc k)
  then have less: "int i < count" and lt: "i < nat count"
    by auto
  have upt: "[i..<nat count] = i # [Suc i..<nat count]"
    using lt by (rule upt_conv_Cons)
  let ?chunk = "chunk_rows cp (slice ps (i * 5000) ((i + 1) * 5000))"
  have "map_of (appendCSV file ?chunk dir) file = Some (old @ ?chunk)"
    using Suc.prems(1) by (simp add: map_of_appendCSV)
  moreover have "k = nat count - Suc i" "Suc i \<le> nat count"
    using Suc.hyps(2) lt by auto
  ultimately have "map_of (write_loop n cp ps file (Suc i) (appendCSV file ?chunk dir)) =
      (map_of (appendCSV file ?chunk dir))(file \<mapsto>
         (old @ ?chunk) @ concat (map (\<lambda>j. chunk_rows cp (slice ps (j * 5000) ((j + 1) * 5000)))
                     [Suc i..<nat count]))"
    using Suc.hyps(1) by blast
  then show ?case
    using less Suc.prems(1)
    by (subst write_loop.simps) (simp add: upt map_of_appendCSV count [symmetric])
qed

lemma raw_rows_written:
  assumes "length ps \<le> 5000 * nat \<lceil>real_of_int n / 5000\<rceil>"
  shows "map_of (write_loop n cp ps file 0 (writeCSV file [] dir)) file =
           Some (map (\<lambda>(k, p). numbered_row cp k p) (enumerate 0 ps))"
proof -
  have "map_of (writeCSV file [] dir) file = Some []"
    by (simp add: map_of_writeCSV)
  then have written: "map_of (write_loop n cp ps file 0 (writeCSV file [] dir)) =
      (map_of (writeCSV file [] dir))(file \<mapsto>
         [] @ concat (map (\<lambda>j. chunk_rows cp (slice ps (j * 5000) ((j + 1) * 5000)))
                     [0..<nat \<lceil>real_of_int n / 5000\<rceil>]))"
    by (rule write_loop_file [OF refl]) simp
  show ?thesis
    unfolding written chunks_numbered using assms by simp
qed

lemma other_files_kept:
  assumes "file' \<noteq> file"
  shows "map_of (write_loop n cp ps file 0 (writeCSV file [] dir)) file' = map_of dir file'"
proof -
  have "map_of (writeCSV file [] dir) file = Some []"
    by (simp add: map_of_writeCSV)
  then have written: "map_of (write_loop n cp ps file 0 (writeCSV file [] dir)) =
      (map_of (writeCSV file [] dir))(file \<mapsto>
         [] @ concat (map (\<lambda>j. chunk_rows cp (slice ps (j * 5000) ((j + 1) * 5000)))
                     [0..<nat \<lceil>real_of_int n / 5000\<rceil>]))"
    by (rule write_loop_file [OF refl]) simp
  show ?thesis
    unfolding written using assms by (simp add: map_of_writeCSV)
qed

subsection \<open>One run of the engine\<close>

lemma currentPriceBTC_keeps [simp]:
  "dataPrivateDir (currentPriceBTC env st) = dataPrivateDir st"
  "coreFilePath (currentPriceBTC env st) = coreFilePath st"
  "simulationCounter (currentPriceBTC env st) = simulationCounter st"
  "simulatedData (currentPriceBTC env st) = simulatedData st"
  "latestOutput (currentPriceBTC env st) = latestOutput st"
  "simulationStatus (currentPriceBTC env st) = simulationStatus st"
  "fileIndex (currentPriceBTC env st) = fileIndex st"
  by (simp_all add: currentPriceBTC_def split: sum.splits)

lemma currentPriceBTC_offline:
  "priceCoinGecko env = None \<Longrightarrow> priceEtherscan env = None \<Longrightarrow>
     currentPriceBTC env st = st\<lparr>connectionLost := True\<rparr>"
  by (simp add: currentPriceBTC_def getCurrentPrice_def)

lemma run_log_simps [simp]:
  "run_log (st\<lparr>simulationStatus := s\<rparr>) = run_log st"
  "run_log (st\<lparr>latestOutput := l\<rparr>) = run_log st"
  "run_log (st\<lparr>connectionLost := b\<rparr>) = run_log st"
  "run_log (currentPriceBTC env st) = run_log st"
  by (simp_all add: run_log_def)

lemma run_log_append:
  "run_log (st\<lparr>coreFilePath :=
       (if \<not> existsSync (coreFilePath st) coreFileName
        then writeCSV coreFileName [entry] (coreFilePath st)
        else appendCSV coreFileName [entry] (coreFilePath st))\<rparr>) = run_log st @ [entry]"
  by (auto simp: run_log_def existsSync_def map_of_writeCSV map_of_appendCSV)

text \<open>The state and the output of a run whose simulation returned the prices
  \<open>allPrices\<close> and whose file index is \<open>idx\<close>.\<close>

lemma generateSimulations_returns:
  fixes cfg :: simulationConfig and env :: environment and st :: engine
  defines "st2 \<equiv> currentPriceBTC env (st\<lparr>simulationStatus := ''PROCESSING''\<rparr>)"
  assumes exec: "executeFullSimulation (lastKnownPrice st2) (totalSimulations cfg)
        (volatilityPercentage cfg / 100) (simulationDays cfg) (turbitPower cfg) (fresh_pool (random env)) =
      Some (Inr (allPrices, pool))"
    and idx: "determineNextFileIndex (readdirSync (dataPrivateDir st)) outputFileSources = Inr idx"
  shows "\<exists>out st' entry.
      generateSimulations cfg env st = Some (Inr (out, st')) \<and>
      status out = ''OK'' \<and> simulationStatus st' = ''OK'' \<and>
      overview out = getUpdatedOverview (lastKnownPrice st2) (highestPrice_of allPrices)
        (calculateTargetPrice allPrices) (averagePrice_of allPrices) (lowestPrice_of allPrices) \<and>
      dataSource (details out) = source_file idx \<and>
      simulationCounter st' = simulationCounter st + 1 \<and>
      simulatedData st' = simulatedData st + totalSimulations cfg \<and>
      fileIndex st' = idx \<and>
      lastKnownPrice st' = lastKnownPrice st2 \<and>
      latestOutput st' = latestOutput st \<and>
      dataPrivateDir st' =
        write_loop (totalSimulations cfg) (lastKnownPrice st2) allPrices (source_file idx) 0
          (writeCSV (source_file idx) [] (dataPrivateDir st)) \<and>
      run_log st' = run_log st @ [entry] \<and>
      simulation_id entry = simulationCounter st + 1 \<and>
      simulated_data entry = totalSimulations cfg \<and>
      total_simulated entry = simulatedData st + totalSimulations cfg \<and>
      current_price entry = round_current (lastKnownPrice st2) \<and>
      data_source entry = source_file idx \<and>
      lowest_price entry = round_stat (lowestPrice_of allPrices) \<and>
      average_price entry = round_stat (averagePrice_of allPrices)"
  unfolding generateSimulations_def Let_def st2_def [symmetric]
  using exec idx
  by (auto simp: st2_def run_log_def existsSync_def map_of_writeCSV map_of_appendCSV)


lemma generateSimulations_throws:
  assumes "executeFullSimulation
      (lastKnownPrice (currentPriceBTC env (st\<lparr>simulationStatus := ''PROCESSING''\<rparr>)))
      (totalSimulations cfg) (volatilityPercentage cfg / 100) (simulationDays cfg)
      (turbitPower cfg) (fresh_pool (random env)) = Some (Inl e)"
  shows "generateSimulations cfg env st =
    Some (Inl (e, currentPriceBTC env (st\<lparr>simulationStatus := ''PROCESSING''\<rparr>)))"
  using assms by (simp add: generateSimulations_def Let_def)

lemma generateSimulations_returned:
  assumes "generateSimulations cfg env st = Some (Inr (out, st'))"
  shows "\<exists>allPrices pool idx.
      executeFullSimulation
        (lastKnownPrice (currentPriceBTC env (st\<lparr>simulationStatus := ''PROCESSING''\<rparr>)))
        (totalSimulations cfg) (volatilityPercentage cfg / 100) (simulationDays cfg)
        (turbitPower cfg) (fresh_pool (random env)) = Some (Inr (allPrices, pool)) \<and>
      determineNextFileIndex (readdirSync (dataPrivateDir st)) outputFileSources = Inr idx"
proof (cases "executeFullSimulation
        (lastKnownPrice (currentPriceBTC env (st\<lparr>simulationStatus := ''PROCESSING''\<rparr>)))
        (totalSimulations cfg) (volatilityPercentage cfg / 100) (simulationDays cfg)
        (turbitPower cfg) (fresh_pool (random env))")
  case None
  with assms show ?thesis
    by (simp add: generateSimulations_def Let_def)
next
  case (Some r)
  show ?thesis
  proof (cases r)
    case (Inl e)
    with Some assms show ?thesis
      by (simp add: generateSimulations_def Let_def)
  next
    case (Inr pr)
    obtain allPrices rs where pr: "pr = (allPrices, rs)"
      by (cases pr)
    show ?thesis
    proof (cases "determineNextFileIndex (readdirSync (dataPrivateDir st)) outputFileSources")
      case (Inl e)
      with Some Inr pr assms show ?thesis
        by (simp add: generateSimulations_def Let_def)
    next
      case (Inr idx)
      with Some \<open>r = Inr pr\<close> pr show ?thesis
        by simp
    qed
  qed
qed

lemma readdirSync_update:
  "readdirSync (AList.update file rows dir) =
     (if file \<in> set (readdirSync dir) then readdirSync dir else readdirSync dir @ [file])"
  by (simp add: readdirSync_def update_keys)

lemma readdirSync_appendCSV:
  "file \<in> set (readdirSync dir) \<Longrightarrow> readdirSync (appendCSV file rows dir) = readdirSync dir"
  by (simp add: appendCSV_def readdirSync_update)

lemma readdirSync_write_loop:
  "name \<in> set (readdirSync dir) \<Longrightarrow> readdirSync (write_loop n cp ps name i dir) = readdirSync dir"
proof (induction n cp ps name i dir rule: write_loop.induct)
  case (1 n cp ps name i dir)
  show ?case
  proof (cases "int i < \<lceil>real_of_int n / 5000\<rceil>")
    case True
    with 1 show ?thesis
      by (subst write_loop.simps) (simp add: readdirSync_appendCSV)
  next
    case False
    then show ?thesis
      by (subst write_loop.simps) simp
  qed
qed

lemma readdirSync_run:
  "readdirSync (write_loop n cp ps file 0 (writeCSV file [] dir)) =
     (if file \<in> set (readdirSync dir) then readdirSync dir else readdirSync dir @ [file])"
proof -
  have "readdirSync (writeCSV file [] dir) =
      (if file \<in> set (readdirSync dir) then readdirSync dir else readdirSync dir @ [file])"
    by (simp add: writeCSV_def appendCSV_def readdirSync_update)
  moreover have "file \<in> set (readdirSync (writeCSV file [] dir))"
    by (simp add: writeCSV_def appendCSV_def readdirSync_update)
  ultimately show ?thesis
    by (simp add: readdirSync_write_loop)
qed

text \<open>A valid request on an available price completes, given the draws it needs and a
  data directory whose matching names all carry a numeric suffix.\<close>

lemma run_completes:
  assumes price: "lastKnownPrice (currentPriceBTC env st) = Some c" "0 < c"
    and valid: "0 < totalSimulations cfg" "0 < volatilityPercentage cfg" "0 < simulationDays cfg"
    and draws: "2 * nat (simulationDays cfg) * nat (totalSimulations cfg)
        \<le> length (nonzero_draws (random env))"
    and idx: "determineNextFileIndex (readdirSync (dataPrivateDir st)) outputFileSources = Inr idx"
  obtains out st' allPrices entry where
    "getSimulationData cfg env st = Some (Inr (out, st'))"
    "status out = ''OK''" "simulationStatus st' = ''OK''"
    "latestOutput st' = Some out"
    "dataSource (details out) = source_file idx"
    "int (length allPrices) = totalSimulations cfg"
    "overview out = getUpdatedOverview (Some c) (highestPrice_of allPrices)
        (calculateTargetPrice allPrices) (averagePrice_of allPrices) (lowestPrice_of allPrices)"
    "simulationCounter st' = simulationCounter st + 1"
    "simulatedData st' = simulatedData st + totalSimulations cfg"
    "lastKnownPrice st' = Some c"
    "raw_file st' (source_file idx) = Some (map (\<lambda>(k, p). numbered_row (Some c) k p) (enumerate 0 allPrices))"
    "readdirSync (dataPrivateDir st') =
       (if source_file idx \<in> set (readdirSync (dataPrivateDir st))
        then readdirSync (dataPrivateDir st) else readdirSync (dataPrivateDir st) @ [source_file idx])"
    "run_log st' = run_log st @ [entry]"
    "simulation_id entry = simulationCounter st + 1"
    "simulated_data entry = totalSimulations cfg"
    "total_simulated entry = simulatedData st + totalSimulations cfg"
    "current_price entry = js_round c"
    "data_source entry = source_file idx"
proof -
  let ?st2 = "currentPriceBTC env (st\<lparr>simulationStatus := ''PROCESSING''\<rparr>)"
  have st2: "lastKnownPrice ?st2 = Some c"
    using price(1) by (simp add: currentPriceBTC_def split: sum.splits)
  have vol: "0 < volatilityPercentage cfg / 100"
    using valid(2) by simp
  from executeFullSimulation_returns [OF price(2) valid(1) vol valid(3) draws, of "turbitPower cfg"]
  obtain allPrices pool where
    exec: "executeFullSimulation (Some c) (totalSimulations cfg) (volatilityPercentage cfg / 100)
        (simulationDays cfg) (turbitPower cfg) (fresh_pool (random env)) = Some (Inr (allPrices, pool))"
    and len: "int (length allPrices) = totalSimulations cfg"
    by blast
  have "executeFullSimulation (lastKnownPrice ?st2) (totalSimulations cfg)
      (volatilityPercentage cfg / 100) (simulationDays cfg) (turbitPower cfg) (fresh_pool (random env)) =
        Some (Inr (allPrices, pool))"
    using exec st2 by simp
  from generateSimulations_returns [OF this idx, unfolded st2]
  obtain out st'' entry where run:
    "generateSimulations cfg env st = Some (Inr (out, st''))"
    "status out = ''OK''" "simulationStatus st'' = ''OK''"
    "overview out = getUpdatedOverview (Some c) (highestPrice_of allPrices)
        (calculateTargetPrice allPrices) (averagePrice_of allPrices) (lowestPrice_of allPrices)"
    "dataSource (details out) = source_file idx"
    "simulationCounter st'' = simulationCounter st + 1"
    "simulatedData st'' = simulatedData st + totalSimulations cfg"
    "lastKnownPrice st'' = Some c"
    "dataPrivateDir st'' =
        write_loop (totalSimulations cfg) (Some c) allPrices (source_file idx) 0
          (writeCSV (source_file idx) [] (dataPrivateDir st))"
    "run_log st'' = run_log st @ [entry]"
    "simulation_id entry = simulationCounter st + 1"
    "simulated_data entry = totalSimulations cfg"
    "total_simulated entry = simulatedData st + totalSimulations cfg"
    "current_price entry = round_current (Some c)"
    "data_source entry = source_file idx"
    by (elim exE conjE) simp
  have bound: "length allPrices \<le> 5000 * nat \<lceil>real_of_int (totalSimulations cfg) / 5000\<rceil>"
    unfolding batchCount_ceiling
    using len batchCount_bounds [of "totalSimulations cfg"] valid(1)
    by linarith
  let ?st' = "st''\<lparr>latestOutput := Some out\<rparr>"
  show ?thesis
  proof (rule that [of out ?st' allPrices entry])
    show "getSimulationData cfg env st = Some (Inr (out, ?st'))"
      using run(1) by (simp add: getSimulationData_def)
    show "raw_file ?st' (source_file idx) =
        Some (map (\<lambda>(k, p). numbered_row (Some c) k p) (enumerate 0 allPrices))"
      using raw_rows_written [OF bound] by (simp add: raw_file_def run(9))
    show "readdirSync (dataPrivateDir ?st') =
       (if source_file idx \<in> set (readdirSync (dataPrivateDir st))
        then readdirSync (dataPrivateDir st) else readdirSync (dataPrivateDir st) @ [source_file idx])"
      by (simp add: run(9) readdirSync_run)
    show "current_price entry = js_round c"
      using run(14) by (simp add: round_current_def)
  qed (use run len in \<open>simp_all add: run_log_def\<close>)
qed

subsection \<open>The example inputs\<close>

lemma example_price:
  "lastKnownPrice (currentPriceBTC (example_environment k) st) = Some 50000"
  by (simp add: currentPriceBTC_def getCurrentPrice_def example_environment_def)

lemma offline_price:
  "lastKnownPrice (currentPriceBTC (offline_environment k) st) = lastKnownPrice st"
  by (simp add: currentPriceBTC_def getCurrentPrice_def offline_environment_def)

lemma example_engine_fields:
  "lastKnownPrice example_engine = Some 50000"
  "simulationCounter example_engine = 2"
  "simulatedData example_engine = 15"
  "simulationStatus example_engine = ''OK''"
  "latestOutput example_engine = None"
  "dataPrivateDir example_engine = []"
  "run_log example_engine = [example_row 1 10 10, example_row 2 5 15]"
  by (simp_all add: example_engine_def static_engine_def run_log_def)

lemma example_config_fields:
  "totalSimulations (example_config n v) = n"
  "volatilityPercentage (example_config n v) = v"
  "simulationDays (example_config n v) = 1"
  "turbitPower (example_config n v) = 4"
  by (simp_all add: example_config_def)

lemma example_draws:
  "length (nonzero_draws (random (example_environment k))) = k"
  "length (nonzero_draws (random (offline_environment k))) = k"
  by (simp_all add: example_environment_def offline_environment_def nonzero_steady_draws)

lemma first_index: "determineNextFileIndex (readdirSync []) outputFileSources = Inr 1"
  by (simp add: determineNextFileIndex_def readdirSync_def)



subsection \<open>Rows of the raw-output file\<close>

lemma numbered_rows_nth:
  "k < length ps \<Longrightarrow>
     row_simulation_id (map (\<lambda>(k, p). numbered_row cp k p) (enumerate 0 ps) ! k) = k mod 5000 + 1"
  by (simp add: nth_enumerate_eq numbered_row_def)

text \<open>
  What every valid run writes: one row for each of its \<open>N\<close> prices, the row at position
  \<open>k\<close> (counted from 0) numbered \<open>k mod 5000 + 1\<close>.
\<close>

lemma raw_output_rows:
  assumes "lastKnownPrice (currentPriceBTC env st) = Some c" "0 < c"
    and "0 < totalSimulations cfg" "0 < volatilityPercentage cfg" "0 < simulationDays cfg"
    and "2 * nat (simulationDays cfg) * nat (totalSimulations cfg)
        \<le> length (nonzero_draws (random env))"
    and "determineNextFileIndex (readdirSync (dataPrivateDir st)) outputFileSources = Inr idx"
  shows "\<exists>out st' rows.
     getSimulationData cfg env st = Some (Inr (out, st')) \<and>
     raw_file st' (dataSource (details out)) = Some rows \<and>
     int (length rows) = totalSimulations cfg \<and>
     (\<forall>k < length rows. row_simulation_id (rows ! k) = k mod 5000 + 1)"
proof -
  obtain out st' allPrices where run:
    "getSimulationData cfg env st = Some (Inr (out, st'))"
    "dataSource (details out) = source_file idx"
    "int (length allPrices) = totalSimulations cfg"
    "raw_file st' (source_file idx) =
       Some (map (\<lambda>(k, p). numbered_row (Some c) k p) (enumerate 0 allPrices))"
    by (rule run_completes [OF assms])
  let ?rows = "map (\<lambda>(k, p). numbered_row (Some c) k p) (enumerate 0 allPrices)"
  have "row_simulation_id (?rows ! k) = k mod 5000 + 1" if "k < length ?rows" for k
    using that by (intro numbered_rows_nth) simp
  moreover have "int (length ?rows) = totalSimulations cfg"
    using run(3) by simp
  ultimately have "raw_file st' (dataSource (details out)) = Some ?rows \<and>
      int (length ?rows) = totalSimulations cfg \<and>
      (\<forall>k < length ?rows. row_simulation_id (?rows ! k) = k mod 5000 + 1)"
    using run(2,4) by simp
  with run(1) show ?thesis
    by blast
qed

text \<open>
  Claim C1 at the count 5001. The run completes and its raw-output file holds 5001
  rows, but the numbering restarts with each chunk of 5000 rows: the row at position
  5000 is numbered 5000 and the row at position 5001 is numbered 1, not 5001.
\<close>

theorem raw_output_numbering_restarts:
  "\<exists>out st' rows.
     getSimulationData (example_config 5001 20) (example_environment 10002) example_engine =
       Some (Inr (out, st')) \<and>
     raw_file st' (dataSource (details out)) = Some rows \<and>
     length rows = 5001 \<and>
     row_simulation_id (rows ! 4999) = 5000 \<and>
     row_simulation_id (rows ! 5000) = 1"
proof -
  have idx: "determineNextFileIndex (readdirSync (dataPrivateDir example_engine)) outputFileSources = Inr 1"
    by (simp add: example_engine_fields first_index)
  have draws: "2 * nat (simulationDays (example_config 5001 20)) * nat (totalSimulations (example_config 5001 20))
      \<le> length (nonzero_draws (random (example_environment 10002)))"
    by (simp add: example_config_fields example_draws)
  obtain out st' allPrices where run:
    "getSimulationData (example_config 5001 20) (example_environment 10002) example_engine =
       Some (Inr (out, st'))"
    "dataSource (details out) = source_file 1"
    "int (length allPrices) = totalSimulations (example_config 5001 20)"
    "raw_file st' (source_file 1) =
       Some (map (\<lambda>(k, p). numbered_row (Some 50000) k p) (enumerate 0 allPrices))"
    by (rule run_completes [OF example_price _ _ _ _ draws idx])
      (simp_all add: example_config_fields)
  have len: "length allPrices = 5001"
    using run(3) by (simp add: example_config_fields)
  let ?rows = "map (\<lambda>(k, p). numbered_row (Some 50000) k p) (enumerate 0 allPrices)"
  have "row_simulation_id (?rows ! 4999) = 4999 mod 5000 + 1"
    by (rule numbered_rows_nth) (simp add: len)
  moreover have "row_simulation_id (?rows ! 5000) = 5000 mod 5000 + 1"
    by (rule numbered_rows_nth) (simp add: len)
  moreover have "length ?rows = 5001"
    using len by simp
  ultimately have "raw_file st' (dataSource (details out)) = Some ?rows \<and>
      length ?rows = 5001 \<and>
      row_simulation_id (?rows ! 4999) = 5000 \<and> row_simulation_id (?rows ! 5000) = 1"
    using run(2,4) by simp
  with run(1) show ?thesis
    by blast
qed

subsection \<open>Validation\<close>

text \<open>
  Two invalid requests. A request with simulation count 0 is not rejected: no batch
  runs, so no validation runs, and the run completes with status OK, takes a run id,
  appends a row without statistics to the run log and creates an empty raw-output file.
  A request with volatility 0 is rejected by the validation of its first batch, after
  the run status has been set to PROCESSING, where it stays.
\<close>

lemma unvalidated_requests:
  "(\<exists>out st' entry.
      generateSimulations (example_config 0 20) (example_environment 0) example_engine =
        Some (Inr (out, st')) \<and>
      status out = ''OK'' \<and>
      simulationCounter st' = simulationCounter example_engine + 1 \<and>
      run_log st' = run_log example_engine @ [entry] \<and>
      simulated_data entry = 0 \<and> lowest_price entry = None \<and> average_price entry = None \<and>
      raw_file st' (source_file 1) = Some []) \<and>
   (\<exists>st'.
      generateSimulations (example_config 10 0) (example_environment 0) example_engine =
        Some (Inl (Error ''Volatility must be greater than 0'', st')) \<and>
      simulationStatus example_engine = ''OK'' \<and> simulationStatus st' = ''PROCESSING'')"
proof (intro conjI)
  let ?st2 = "currentPriceBTC (example_environment 0) (example_engine\<lparr>simulationStatus := ''PROCESSING''\<rparr>)"
  have idx: "determineNextFileIndex (readdirSync (dataPrivateDir example_engine)) outputFileSources = Inr 1"
    by (simp add: example_engine_fields first_index)
  have "executeFullSimulation (lastKnownPrice ?st2) (totalSimulations (example_config 0 20))
      (volatilityPercentage (example_config 0 20) / 100) (simulationDays (example_config 0 20))
      (turbitPower (example_config 0 20)) (fresh_pool (random (example_environment 0))) =
        Some (Inr ([], fresh_pool (random (example_environment 0))))"
    by (rule executeFullSimulation_no_batches) (simp add: example_config_fields)
  from generateSimulations_returns [OF this idx]
  obtain out st' entry where run:
    "generateSimulations (example_config 0 20) (example_environment 0) example_engine =
       Some (Inr (out, st'))"
    "status out = ''OK''"
    "simulationCounter st' = simulationCounter example_engine + 1"
    "dataPrivateDir st' =
        write_loop (totalSimulations (example_config 0 20)) (lastKnownPrice ?st2) [] (source_file 1) 0
          (writeCSV (source_file 1) [] (dataPrivateDir example_engine))"
    "run_log st' = run_log example_engine @ [entry]"
    "simulated_data entry = totalSimulations (example_config 0 20)"
    "lowest_price entry = round_stat (lowestPrice_of [])"
    "average_price entry = round_stat (averagePrice_of [])"
    by (elim exE conjE) simp
  have "raw_file st' (source_file 1) = Some []"
    unfolding raw_file_def run(4)
    using raw_rows_written [of "[]" "totalSimulations (example_config 0 20)" "lastKnownPrice ?st2"
        "source_file 1" "dataPrivateDir example_engine"]
    by simp
  with run show "\<exists>out st' entry.
      generateSimulations (example_config 0 20) (example_environment 0) example_engine =
        Some (Inr (out, st')) \<and>
      status out = ''OK'' \<and>
      simulationCounter st' = simulationCounter example_engine + 1 \<and>
      run_log st' = run_log example_engine @ [entry] \<and>
      simulated_data entry = 0 \<and> lowest_price entry = None \<and> average_price entry = None \<and>
      raw_file st' (source_file 1) = Some []"
    by (intro exI [of _ out] exI [of _ st'] exI [of _ entry])
      (simp add: example_config_fields round_stat_def lowestPrice_of_def averagePrice_of_def)
next
  let ?st2 = "currentPriceBTC (example_environment 0) (example_engine\<lparr>simulationStatus := ''PROCESSING''\<rparr>)"
  have count: "batchCount 10 = 1"
    using batchCount_bounds [of 10] by simp
  have "validateInputs (lastKnownPrice ?st2) (batchSize (totalSimulations (example_config 10 0)) 0)
      (volatilityPercentage (example_config 10 0) / 100) (simulationDays (example_config 10 0)) =
        Some (Error ''Volatility must be greater than 0'')"
    by (simp add: example_config_fields example_price validateInputs_def batchSize_def count)
  then have "executeFullSimulation (lastKnownPrice ?st2) (totalSimulations (example_config 10 0))
      (volatilityPercentage (example_config 10 0) / 100) (simulationDays (example_config 10 0))
      (turbitPower (example_config 10 0)) (fresh_pool (random (example_environment 0))) =
        Some (Inl (Error ''Volatility must be greater than 0''))"
    by (intro executeFullSimulation_rejects) (simp_all add: example_config_fields)
  from generateSimulations_throws [OF this]
  show "\<exists>st'.
      generateSimulations (example_config 10 0) (example_environment 0) example_engine =
        Some (Inl (Error ''Volatility must be greater than 0'', st')) \<and>
      simulationStatus example_engine = ''OK'' \<and> simulationStatus st' = ''PROCESSING''"
    by (simp add: example_engine_fields)
qed


text \<open>
  Claim C3 as stated fails. The request with count 0 is not rejected at all and the run
  it starts changes the counters and the run log; the request with volatility 0 is
  rejected, but the run status has changed from OK to PROCESSING.
\<close>

theorem validation_counterexample:
  "totalSimulations (example_config 0 20) \<le> 0 \<and>
   thrown (generateSimulations (example_config 0 20) (example_environment 0) example_engine) = None \<and>
   map_option status
     (output_of (generateSimulations (example_config 0 20) (example_environment 0) example_engine)) =
     Some ''OK'' \<and>
   map_option simulationCounter
     (state_after (generateSimulations (example_config 0 20) (example_environment 0) example_engine)) =
     Some (simulationCounter example_engine + 1) \<and>
   map_option (length \<circ> run_log)
     (state_after (generateSimulations (example_config 0 20) (example_environment 0) example_engine)) =
     Some (Suc (length (run_log example_engine))) \<and>
   volatilityPercentage (example_config 10 0) \<le> 0 \<and>
   thrown (generateSimulations (example_config 10 0) (example_environment 0) example_engine) =
     Some (Error ''Volatility must be greater than 0'') \<and>
   simulationStatus example_engine = ''OK'' \<and>
   map_option simulationStatus
     (state_after (generateSimulations (example_config 10 0) (example_environment 0) example_engine)) =
     Some ''PROCESSING''"
proof -
  from unvalidated_requests obtain out st' entry st'' where
    "generateSimulations (example_config 0 20) (example_environment 0) example_engine =
       Some (Inr (out, st'))"
    "status out = ''OK''"
    "simulationCounter st' = simulationCounter example_engine + 1"
    "run_log st' = run_log example_engine @ [entry]"
    "generateSimulations (example_config 10 0) (example_environment 0) example_engine =
       Some (Inl (Error ''Volatility must be greater than 0'', st''))"
    "simulationStatus example_engine = ''OK''" "simulationStatus st'' = ''PROCESSING''"
    by (elim conjE exE)
  then show ?thesis
    by (simp add: thrown_def output_of_def state_after_def example_config_fields)
qed

lemma validateInputs_batch:
  assumes "0 < n" "0 < m"
  shows "validateInputs cp m vol days = validateInputs cp n vol days"
  using assms by (simp add: validateInputs_def)

text \<open>
  Claim C3, as amended. For every request with a positive simulation count in which the
  reference price (the last known price after the fetch, a missing one counting as 0),
  the volatility or the horizon in days is non-positive, the run is rejected with the
  error of the validation when its first batch starts, whatever the random draws; the
  counters, the cached output, the run log and the raw-output files are as before the
  call.
\<close>

theorem invalid_request_rejected:
  assumes "0 < totalSimulations cfg"
    and "lastKnownPrice (currentPriceBTC env st) = None \<or>
         (\<exists>c. lastKnownPrice (currentPriceBTC env st) = Some c \<and> c \<le> 0) \<or>
         volatilityPercentage cfg \<le> 0 \<or> simulationDays cfg \<le> 0"
  shows "\<exists>e st'.
           getSimulationData cfg env st = Some (Inl (e, st')) \<and>
           validateInputs (lastKnownPrice (currentPriceBTC env st)) (totalSimulations cfg)
             (volatilityPercentage cfg / 100) (simulationDays cfg) = Some e \<and>
           e \<in> {Error ''Current price must be greater than 0'',
                 Error ''Volatility must be greater than 0'',
                 Error ''Days must be greater than 0''} \<and>
           simulationCounter st' = simulationCounter st \<and>
           simulatedData st' = simulatedData st \<and>
           fileIndex st' = fileIndex st \<and>
           latestOutput st' = latestOutput st \<and>
           coreFilePath st' = coreFilePath st \<and>
           dataPrivateDir st' = dataPrivateDir st"
proof -
  let ?st2 = "currentPriceBTC env (st\<lparr>simulationStatus := ''PROCESSING''\<rparr>)"
  have price: "lastKnownPrice ?st2 = lastKnownPrice (currentPriceBTC env st)"
    by (simp add: currentPriceBTC_def split: sum.splits)
  have "\<exists>e. validateInputs (lastKnownPrice (currentPriceBTC env st)) (totalSimulations cfg)
          (volatilityPercentage cfg / 100) (simulationDays cfg) = Some e \<and>
        e \<in> {Error ''Current price must be greater than 0'',
              Error ''Volatility must be greater than 0'',
              Error ''Days must be greater than 0''}"
    using assms by (auto simp: validateInputs_def)
  then obtain e where
    e: "validateInputs (lastKnownPrice (currentPriceBTC env st)) (totalSimulations cfg)
          (volatilityPercentage cfg / 100) (simulationDays cfg) = Some e"
    and kind: "e \<in> {Error ''Current price must be greater than 0'',
                 Error ''Volatility must be greater than 0'',
                 Error ''Days must be greater than 0''}"
    by blast
  have "0 < batchSize (totalSimulations cfg) 0"
    using assms(1) batchCount_bounds [of "totalSimulations cfg"]
    by (intro batchSize_positive) simp_all
  from validateInputs_batch [OF assms(1) this] e price
  have "validateInputs (lastKnownPrice ?st2) (batchSize (totalSimulations cfg) 0)
      (volatilityPercentage cfg / 100) (simulationDays cfg) = Some e"
    by simp
  with assms(1) have "executeFullSimulation (lastKnownPrice ?st2) (totalSimulations cfg)
      (volatilityPercentage cfg / 100) (simulationDays cfg) (turbitPower cfg) (fresh_pool (random env)) =
        Some (Inl e)"
    by (rule executeFullSimulation_rejects)
  from generateSimulations_throws [OF this]
  have "getSimulationData cfg env st = Some (Inl (e, ?st2))"
    by (simp add: getSimulationData_def)
  with e kind show ?thesis
    by (intro exI [of _ e] exI [of _ ?st2]) simp
qed

theorem invalid_request_rejected_witness:
  "0 < totalSimulations (example_config 10 0) \<and>
   volatilityPercentage (example_config 10 0) \<le> 0 \<and>
   (\<exists>st'.
      getSimulationData (example_config 10 0) (example_environment 0) example_engine =
        Some (Inl (Error ''Volatility must be greater than 0'', st')) \<and>
      simulationCounter st' = 2 \<and> simulatedData st' = 15 \<and> latestOutput st' = None \<and>
      run_log st' = run_log example_engine \<and> dataPrivateDir st' = [])"
proof -
  have valid: "0 < totalSimulations (example_config 10 0)"
    and invalid: "volatilityPercentage (example_config 10 0) \<le> 0"
    by (simp_all add: example_config_fields)
  from invalid_request_rejected [OF valid, of "example_environment 0" example_engine] invalid
  obtain e st' where run:
    "getSimulationData (example_config 10 0) (example_environment 0) example_engine =
       Some (Inl (e, st'))"
    "validateInputs (lastKnownPrice (currentPriceBTC (example_environment 0) example_engine))
       (totalSimulations (example_config 10 0)) (volatilityPercentage (example_config 10 0) / 100)
       (simulationDays (example_config 10 0)) = Some e"
    "simulationCounter st' = simulationCounter example_engine"
    "simulatedData st' = simulatedData example_engine"
    "latestOutput st' = latestOutput example_engine"
    "coreFilePath st' = coreFilePath example_engine"
    "dataPrivateDir st' = dataPrivateDir example_engine"
    by blast
  from run(2) have "e = Error ''Volatility must be greater than 0''"
    by (simp add: example_price example_config_fields validateInputs_def)
  with run valid invalid show ?thesis
    by (simp add: example_engine_fields run_log_def)
qed

subsection \<open>Failure of the price source\<close>

lemma getCurrentPrice_offline:
  "getCurrentPrice None None = Inl (Error ''Failed to fetch BTC price from both sources.'')"
  by (simp add: getCurrentPrice_def)

lemma run_without_price:
  assumes offline: "priceCoinGecko env = None" "priceEtherscan env = None"
    and none: "lastKnownPrice st = None"
    and count: "0 < totalSimulations cfg"
  shows "getSimulationData cfg env st =
     Some (Inl (Error ''Current price must be greater than 0'',
                st\<lparr>simulationStatus := ''PROCESSING'', connectionLost := True\<rparr>))"
proof -
  let ?st1 = "st\<lparr>simulationStatus := ''PROCESSING''\<rparr>"
  have st2: "currentPriceBTC env ?st1 = ?st1\<lparr>connectionLost := True\<rparr>"
    using offline by (rule currentPriceBTC_offline)
  have "validateInputs (lastKnownPrice (currentPriceBTC env ?st1))
      (batchSize (totalSimulations cfg) 0) (volatilityPercentage cfg / 100) (simulationDays cfg) =
        Some (Error ''Current price must be greater than 0'')"
    by (simp add: st2 none validateInputs_def)
  with count have "executeFullSimulation (lastKnownPrice (currentPriceBTC env ?st1))
      (totalSimulations cfg) (volatilityPercentage cfg / 100) (simulationDays cfg)
      (turbitPower cfg) (fresh_pool (random env)) = Some (Inl (Error ''Current price must be greater than 0''))"
    by (rule executeFullSimulation_rejects)
  from generateSimulations_throws [OF this] show ?thesis
    by (simp add: getSimulationData_def st2)
qed

text \<open>
  Claim C2, as amended. When every feed fails, the run falls back on the last known
  price. If no price has ever been obtained, a request with a positive count is rejected
  with the error of the price validation: the run log, the raw-output files, the counters
  and the cached output are as before the call. If a last known price exists, a valid
  request completes on that price with status OK, appends one row to the run log and
  replaces the cached output.
\<close>

theorem price_source_failure:
  assumes "priceCoinGecko env = None" "priceEtherscan env = None"
  shows "getCurrentPrice (priceCoinGecko env) (priceEtherscan env) =
           Inl (Error ''Failed to fetch BTC price from both sources.'') \<and>
         (lastKnownPrice st = None \<and> 0 < totalSimulations cfg \<longrightarrow>
            (\<exists>st'. getSimulationData cfg env st =
                     Some (Inl (Error ''Current price must be greater than 0'', st')) \<and>
                   coreFilePath st' = coreFilePath st \<and>
                   dataPrivateDir st' = dataPrivateDir st \<and>
                   simulationCounter st' = simulationCounter st \<and>
                   simulatedData st' = simulatedData st \<and>
                   latestOutput st' = latestOutput st)) \<and>
         (\<forall>c idx.
            lastKnownPrice st = Some c \<and> 0 < c \<and>
            0 < totalSimulations cfg \<and> 0 < volatilityPercentage cfg \<and> 0 < simulationDays cfg \<and>
            2 * nat (simulationDays cfg) * nat (totalSimulations cfg)
              \<le> length (nonzero_draws (random env)) \<and>
            determineNextFileIndex (readdirSync (dataPrivateDir st)) outputFileSources = Inr idx \<longrightarrow>
            (\<exists>out st' entry.
               getSimulationData cfg env st = Some (Inr (out, st')) \<and>
               status out = ''OK'' \<and> current (overview out) = js_round c \<and>
               run_log st' = run_log st @ [entry] \<and> current_price entry = js_round c \<and>
               latestOutput st' = Some out))"
proof (intro conjI impI allI)
  show "getCurrentPrice (priceCoinGecko env) (priceEtherscan env) =
      Inl (Error ''Failed to fetch BTC price from both sources.'')"
    using assms by (simp add: getCurrentPrice_offline)
next
  assume "lastKnownPrice st = None \<and> 0 < totalSimulations cfg"
  then have "getSimulationData cfg env st =
     Some (Inl (Error ''Current price must be greater than 0'',
                st\<lparr>simulationStatus := ''PROCESSING'', connectionLost := True\<rparr>))"
    using assms by (intro run_without_price) simp_all
  then show "\<exists>st'. getSimulationData cfg env st =
                     Some (Inl (Error ''Current price must be greater than 0'', st')) \<and>
                   coreFilePath st' = coreFilePath st \<and>
                   dataPrivateDir st' = dataPrivateDir st \<and>
                   simulationCounter st' = simulationCounter st \<and>
                   simulatedData st' = simulatedData st \<and>
                   latestOutput st' = latestOutput st"
    by simp
next
  fix c idx
  assume run: "lastKnownPrice st = Some c \<and> 0 < c \<and>
            0 < totalSimulations cfg \<and> 0 < volatilityPercentage cfg \<and> 0 < simulationDays cfg \<and>
            2 * nat (simulationDays cfg) * nat (totalSimulations cfg)
              \<le> length (nonzero_draws (random env)) \<and>
            determineNextFileIndex (readdirSync (dataPrivateDir st)) outputFileSources = Inr idx"
  have price: "lastKnownPrice (currentPriceBTC env st) = Some c"
    using assms run by (simp add: currentPriceBTC_offline)
  obtain out st' allPrices entry where
    "getSimulationData cfg env st = Some (Inr (out, st'))"
    "status out = ''OK''" "latestOutput st' = Some out"
    "overview out = getUpdatedOverview (Some c) (highestPrice_of allPrices)
        (calculateTargetPrice allPrices) (averagePrice_of allPrices) (lowestPrice_of allPrices)"
    "run_log st' = run_log st @ [entry]" "current_price entry = js_round c"
    using run by (elim conjE) (rule run_completes [OF price])
  then show "\<exists>out st' entry.
               getSimulationData cfg env st = Some (Inr (out, st')) \<and>
               status out = ''OK'' \<and> current (overview out) = js_round c \<and>
               run_log st' = run_log st @ [entry] \<and> current_price entry = js_round c \<and>
               latestOutput st' = Some out"
    by (intro exI [of _ out] exI [of _ st'] exI [of _ entry])
      (simp add: getUpdatedOverview_def round_current_def)
qed

lemma offline_feeds:
  "priceCoinGecko (offline_environment k) = None" "priceEtherscan (offline_environment k) = None"
  by (simp_all add: offline_environment_def)

theorem price_source_failure_witness:
  "priceCoinGecko (offline_environment 2) = None \<and> priceEtherscan (offline_environment 2) = None \<and>
   lastKnownPrice (example_engine\<lparr>lastKnownPrice := None\<rparr>) = None \<and>
   0 < totalSimulations (example_config 1 20) \<and>
   (\<exists>st'. getSimulationData (example_config 1 20) (offline_environment 2)
            (example_engine\<lparr>lastKnownPrice := None\<rparr>) =
              Some (Inl (Error ''Current price must be greater than 0'', st')) \<and>
          run_log st' = run_log example_engine \<and> latestOutput st' = None) \<and>
   lastKnownPrice example_engine = Some 50000 \<and>
   (\<exists>out st' entry.
      getSimulationData (example_config 1 20) (offline_environment 2) example_engine =
        Some (Inr (out, st')) \<and>
      status out = ''OK'' \<and> current (overview out) = 50000 \<and>
      run_log st' = run_log example_engine @ [entry] \<and> current_price entry = 50000 \<and>
      latestOutput st' = Some out)"
proof -
  have valid: "0 < totalSimulations (example_config 1 20)"
    "0 < volatilityPercentage (example_config 1 20)" "0 < simulationDays (example_config 1 20)"
    "2 * nat (simulationDays (example_config 1 20)) * nat (totalSimulations (example_config 1 20))
       \<le> length (nonzero_draws (random (offline_environment 2)))"
    by (simp_all add: example_config_fields example_draws)
  have idx: "determineNextFileIndex (readdirSync (dataPrivateDir example_engine)) outputFileSources = Inr 1"
    by (simp add: example_engine_fields first_index)
  have round: "js_round 50000 = 50000"
    by (simp add: js_round_def)
  note first = price_source_failure [OF offline_feeds, of 2 "example_engine\<lparr>lastKnownPrice := None\<rparr>"
      "example_config 1 20", THEN conjunct2, THEN conjunct1, rule_format]
  note second = price_source_failure [OF offline_feeds, of 2 example_engine "example_config 1 20",
      THEN conjunct2, THEN conjunct2, rule_format, of 50000 1]
  have "\<exists>st'. getSimulationData (example_config 1 20) (offline_environment 2)
            (example_engine\<lparr>lastKnownPrice := None\<rparr>) =
              Some (Inl (Error ''Current price must be greater than 0'', st')) \<and>
          run_log st' = run_log example_engine \<and> latestOutput st' = None"
    using first valid(1) by (auto simp: run_log_def example_engine_fields)
  moreover have "\<exists>out st' entry.
      getSimulationData (example_config 1 20) (offline_environment 2) example_engine =
        Some (Inr (out, st')) \<and>
      status out = ''OK'' \<and> current (overview out) = 50000 \<and>
      run_log st' = run_log example_engine @ [entry] \<and> current_price entry = 50000 \<and>
      latestOutput st' = Some out"
    using second valid idx by (simp add: example_engine_fields round)
  ultimately show ?thesis
    using valid(1) by (simp add: offline_feeds example_engine_fields)
qed

text \<open>
  Claim C2 as stated fails when a price was obtained by an earlier run: with both feeds
  down, the run completes on the last known price with status OK (not FAILED), the run
  log gains a row and the cached output is replaced.
\<close>

theorem price_source_failure_counterexample:
  "getCurrentPrice (priceCoinGecko (offline_environment 2)) (priceEtherscan (offline_environment 2)) =
     Inl (Error ''Failed to fetch BTC price from both sources.'') \<and>
   map_option status
     (output_of (getSimulationData (example_config 1 20) (offline_environment 2) example_engine)) =
     Some ''OK'' \<and>
   map_option (length \<circ> run_log)
     (state_after (getSimulationData (example_config 1 20) (offline_environment 2) example_engine)) =
     Some (Suc (length (run_log example_engine))) \<and>
   map_option latestOutput
     (state_after (getSimulationData (example_config 1 20) (offline_environment 2) example_engine)) \<noteq>
     Some (latestOutput example_engine)"
proof -
  have price: "lastKnownPrice (currentPriceBTC (offline_environment 2) example_engine) = Some 50000"
    by (simp add: offline_price example_engine_fields)
  have idx: "determineNextFileIndex (readdirSync (dataPrivateDir example_engine)) outputFileSources = Inr 1"
    by (simp add: example_engine_fields first_index)
  have draws: "2 * nat (simulationDays (example_config 1 20)) * nat (totalSimulations (example_config 1 20))
       \<le> length (nonzero_draws (random (offline_environment 2)))"
    by (simp add: example_config_fields example_draws)
  obtain out st' allPrices entry where
    "getSimulationData (example_config 1 20) (offline_environment 2) example_engine =
       Some (Inr (out, st'))"
    "status out = ''OK''" "latestOutput st' = Some out"
    "run_log st' = run_log example_engine @ [entry]"
    by (rule run_completes [OF price _ _ _ _ draws idx]) (simp_all add: example_config_fields)
  then show ?thesis
    by (simp add: output_of_def state_after_def offline_feeds getCurrentPrice_offline
        example_engine_fields)
qed

subsection \<open>Run ids and cumulative counts\<close>

lemma chained_snoc:
  "chained (rows @ [e]) =
     (chained rows \<and>
      (rows = [] \<or>
       simulation_id e = simulation_id (last rows) + 1 \<and>
       total_simulated e = total_simulated (last rows) + simulated_data e))"
  by (induction rows rule: chained.induct) auto

lemma counters_agree_iff:
  "counters_agree st =
     (run_log st = [] \<or>
      simulation_id (last (run_log st)) = simulationCounter st \<and>
      total_simulated (last (run_log st)) = simulatedData st)"
  by (simp add: counters_agree_def split: list.splits)

lemma ledger_step:
  assumes ok: "ledger_ok st"
    and run: "getSimulationData cfg env st = Some (Inr (out, st'))"
  shows "ledger_ok st' \<and>
         simulationCounter st' = simulationCounter st + 1 \<and>
         (\<exists>entry. run_log st' = run_log st @ [entry] \<and>
            simulation_id entry = simulationCounter st + 1 \<and>
            simulated_data entry = totalSimulations cfg \<and>
            total_simulated entry = simulatedData st + totalSimulations cfg)"
proof -
  from run obtain st'' where gen: "generateSimulations cfg env st = Some (Inr (out, st''))"
    and st': "st' = st''\<lparr>latestOutput := Some out\<rparr>"
    by (auto simp: getSimulationData_def split: option.splits sum.splits)
  from generateSimulations_returned [OF gen] obtain allPrices pool idx where
    exec: "executeFullSimulation
        (lastKnownPrice (currentPriceBTC env (st\<lparr>simulationStatus := ''PROCESSING''\<rparr>)))
        (totalSimulations cfg) (volatilityPercentage cfg / 100) (simulationDays cfg)
        (turbitPower cfg) (fresh_pool (random env)) = Some (Inr (allPrices, pool))"
    and idx: "determineNextFileIndex (readdirSync (dataPrivateDir st)) outputFileSources = Inr idx"
    by blast
  from generateSimulations_returns [OF exec idx] gen obtain entry where facts:
    "simulationCounter st'' = simulationCounter st + 1"
    "simulatedData st'' = simulatedData st + totalSimulations cfg"
    "run_log st'' = run_log st @ [entry]"
    "simulation_id entry = simulationCounter st + 1"
    "simulated_data entry = totalSimulations cfg"
    "total_simulated entry = simulatedData st + totalSimulations cfg"
    by (elim exE conjE) simp
  have log: "run_log st' = run_log st @ [entry]"
    using facts(3) by (simp add: st')
  have "chained (run_log st')"
    using ok facts(4-6) unfolding log chained_snoc
    by (auto simp: ledger_ok_def counters_agree_iff)
  moreover have "counters_agree st'"
    using facts by (simp add: counters_agree_iff log st')
  ultimately show ?thesis
    using facts log by (simp add: ledger_ok_def st')
qed



subsection \<open>Names of the raw-output files\<close>

lemma digit_char_facts:
  assumes "d < 10"
  shows "is_digit (digit_char d)" and "digit_value (digit_char d) = d"
proof -
  from assms have "d \<in> {0, 1, 2, 3, 4, 5, 6, 7, 8, 9}"
    by auto
  then show "is_digit (digit_char d)" and "digit_value (digit_char d) = d"
    by (auto simp: digit_char_def is_digit_def digit_value_def)
qed

lemma show_nat_digits: "show_nat n \<noteq> [] \<and> (\<forall>c \<in> set (show_nat n). is_digit c)"
proof (induction n rule: show_nat.induct)
  case (1 n)
  show ?case
  proof (cases "n < 10")
    case True
    then show ?thesis
      by (subst (1 2) show_nat.simps) (simp add: digit_char_facts)
  next
    case False
    with 1 show ?thesis
      by (subst (1 2) show_nat.simps) (simp add: digit_char_facts)
  qed
qed

lemma parseInt_snoc: "parseInt (ds @ [c]) = 10 * parseInt ds + digit_value c"
  by (simp add: parseInt_def)

lemma parseInt_show_nat: "parseInt (show_nat n) = n"
proof (induction n rule: show_nat.induct)
  case (1 n)
  show ?case
  proof (cases "n < 10")
    case True
    then show ?thesis
      by (subst show_nat.simps) (simp add: parseInt_def digit_char_facts)
  next
    case False
    with 1 show ?thesis
      by (subst show_nat.simps) (simp add: parseInt_snoc digit_char_facts)
  qed
qed

lemma match_index_numbered:
  assumes "ds \<noteq> []" "\<forall>c \<in> set ds. is_digit c"
  shows "match_index (p @ ''_'' @ ds @ ''.csv'') = Some ds"
proof -
  have suffix: "suffix ''.csv'' (p @ ''_'' @ ds @ ''.csv'')"
    by (metis append.assoc suffixI)
  have body: "rev (drop 4 (rev (p @ ''_'' @ ds @ ''.csv''))) = p @ ''_'' @ ds"
    by simp
  have under: "\<not> is_digit CHR ''_''"
    by (simp add: is_digit_def)
  have digits: "\<And>c. c \<in> set (rev ds) \<Longrightarrow> is_digit c"
    using assms(2) by simp
  have split: "rev (p @ ''_'' @ ds) = rev ds @ (CHR ''_'' # rev p)"
    by simp
  have "takeWhile is_digit (rev ds @ (CHR ''_'' # rev p)) =
      rev ds @ takeWhile is_digit (CHR ''_'' # rev p)"
    by (rule takeWhile_append2) (rule digits)
  then have "takeWhile is_digit (rev (p @ ''_'' @ ds)) = rev ds"
    unfolding split using under by simp
  moreover have "dropWhile is_digit (rev ds @ (CHR ''_'' # rev p)) =
      dropWhile is_digit (CHR ''_'' # rev p)"
    by (rule dropWhile_append2) (rule digits)
  then have "dropWhile is_digit (rev (p @ ''_'' @ ds)) = CHR ''_'' # rev p"
    unfolding split using under by simp
  ultimately show ?thesis
    unfolding match_index_def body Let_def using suffix assms(1) by simp
qed

lemma file_index_source_file: "file_index (source_file n) = Inr n"
  using match_index_numbered [of "show_nat n" outputFileSources] show_nat_digits [of n]
  by (simp add: file_index_def source_file_def parseInt_show_nat)

lemma source_file_matches:
  "startsWith (source_file n) (outputFileSources @ ''_'')"
  "startsWith (source_file n) outputFileSources"
  "endsWith (source_file n) ''.csv''"
  by (simp_all add: startsWith_def endsWith_def source_file_def suffix_def)

subsection \<open>The counters across restarts\<close>

lemma array_from_length:
  "array_from n c vol days rs = Some (ps, rs') \<Longrightarrow> length ps = n"
  by (induction n arbitrary: rs ps) (auto split: option.splits)

lemma run_batches_lengths:
  "run_batches c vol days ns rs = Some (batches, rest) \<Longrightarrow> map length batches = ns"
proof (induction ns arbitrary: rs batches)
  case Nil
  then show ?case by simp
next
  case (Cons n ns)
  from Cons.prems obtain batch rs1 more where
    parts: "array_from n c vol days rs = Some (batch, rs1)"
      "run_batches c vol days ns rs1 = Some (more, rest)" "batches = batch # more"
    by (auto split: option.splits)
  from array_from_length [OF parts(1)] Cons.IH [OF parts(2)] parts(3) show ?case
    by simp
qed

lemma executeFullSimulation_length:
  assumes exec: "executeFullSimulation cp n vol days pw pool = Some (Inr (ps, rest))"
    and count: "0 \<le> n"
  shows "int (length ps) = n"
proof (cases "n = 0")
  case True
  with exec show ?thesis
    by (simp add: executeFullSimulation_no_batches)
next
  case False
  with count have pos: "0 < n"
    by simp
  have "validateInputs cp (batchSize n 0) vol days = None"
  proof (cases "validateInputs cp (batchSize n 0) vol days")
    case (Some e)
    from executeFullSimulation_rejects [OF pos this] exec show ?thesis
      by simp
  qed simp
  then obtain c where valid: "cp = Some c" "0 < c" "0 < vol" "0 < days"
    by (cases cp) (auto simp: validateInputs_def split: if_splits)
  from exec obtain batches rs' where
    run: "run_batches c vol days (batch_sizes n) (turbit_draws pool) = Some (batches, rs')"
    and ps: "ps = concat batches"
    unfolding executeFullSimulation_def valid(1)
      batch_loop_run [OF valid(2) pos valid(3,4), of 0 pw "[]" pool, simplified]
    by (auto simp: batch_sizes_loop [OF pos] split: option.splits)
  have "length ps = sum_list (map length batches)"
    by (simp add: ps length_concat)
  then show ?thesis
    using run_batches_lengths [OF run] sum_list_batch_sizes(1) [OF pos] pos by simp
qed

lemma map_indices_member:
  "map_indices files = Inr ns \<Longrightarrow> f \<in> set files \<Longrightarrow> file_index f = Inr n \<Longrightarrow> n \<in> set ns"
  by (induction files arbitrary: ns) (auto split: sum.splits)

lemma next_index_fresh:
  assumes "determineNextFileIndex names outputFileSources = Inr idx"
  shows "source_file idx \<notin> set names"
proof
  assume mem: "source_file idx \<in> set names"
  let ?csv = "filter (\<lambda>file. startsWith file (outputFileSources @ ''_'') \<and> endsWith file ''.csv'') names"
  have in_csv: "source_file idx \<in> set ?csv"
    using mem by (simp add: source_file_matches)
  from assms obtain indices where
    indices: "map_indices ?csv = Inr indices"
    and idx: "idx = (if length indices > 0 then Max (set indices) + 1 else 1)"
    by (auto simp: determineNextFileIndex_def Let_def split: sum.splits)
  from map_indices_member [OF indices in_csv file_index_source_file]
  have "idx \<in> set indices" .
  then have "indices \<noteq> []" "idx \<le> Max (set indices)"
    by auto
  with idx show False
    by simp
qed

lemma foldl_rows:
  "foldl (\<lambda>acc file. acc + int (g file)) a files = a + (\<Sum>file\<leftarrow>files. int (g file))"
  by (induction files arbitrary: a) simp_all

lemma calculateSimulatedData_sum:
  "calculateSimulatedData dir p =
     (\<Sum>file\<leftarrow>getCSVFiles dir p. int (length (case map_of dir file of None \<Rightarrow> [] | Some rows \<Rightarrow> rows)))"
  unfolding calculateSimulatedData_def
  using foldl_rows [of "\<lambda>file. length (case map_of dir file of None \<Rightarrow> [] | Some rows \<Rightarrow> rows)" 0]
  by simp

lemma run_files:
  fixes dir :: "raw_row directory" and cp :: "real option"
  assumes idx: "determineNextFileIndex (readdirSync dir) outputFileSources = Inr idx"
    and len: "int (length ps) = n"
  defines "dir' \<equiv> write_loop n cp ps (source_file idx) 0 (writeCSV (source_file idx) [] dir)"
  shows "getCSVFiles dir' outputFileSources = getCSVFiles dir outputFileSources @ [source_file idx]"
    and "calculateSimulatedData dir' outputFileSources =
           calculateSimulatedData dir outputFileSources + n"
proof -
  have fresh: "source_file idx \<notin> set (readdirSync dir)"
    using idx by (rule next_index_fresh)
  have names: "readdirSync dir' = readdirSync dir @ [source_file idx]"
    unfolding dir'_def using fresh by (simp add: readdirSync_run)
  show csv: "getCSVFiles dir' outputFileSources = getCSVFiles dir outputFileSources @ [source_file idx]"
    by (simp add: getCSVFiles_def names source_file_matches)
  have bound: "length ps \<le> 5000 * nat \<lceil>real_of_int n / 5000\<rceil>"
    unfolding batchCount_ceiling
    using len batchCount_bounds [of n] by linarith
  have new: "map_of dir' (source_file idx) =
      Some (map (\<lambda>(k, p). numbered_row cp k p) (enumerate 0 ps))"
    unfolding dir'_def by (rule raw_rows_written [OF bound])
  have old: "map_of dir' f = map_of dir f" if "f \<in> set (getCSVFiles dir outputFileSources)" for f
  proof -
    from that fresh have "f \<noteq> source_file idx"
      by (auto simp: getCSVFiles_def)
    then show ?thesis
      unfolding dir'_def by (rule other_files_kept)
  qed
  have "(\<Sum>file\<leftarrow>getCSVFiles dir outputFileSources.
            int (length (case map_of dir' file of None \<Rightarrow> [] | Some rows \<Rightarrow> rows))) =
        (\<Sum>file\<leftarrow>getCSVFiles dir outputFileSources.
            int (length (case map_of dir file of None \<Rightarrow> [] | Some rows \<Rightarrow> rows)))"
    by (rule arg_cong [where f = sum_list], rule map_cong) (simp_all add: old)
  then show "calculateSimulatedData dir' outputFileSources =
           calculateSimulatedData dir outputFileSources + n"
    unfolding calculateSimulatedData_sum csv using new len by simp
qed

lemma store_step:
  assumes ok: "store_ok st"
    and run: "getSimulationData cfg env st = Some (Inr (out, st'))"
    and count: "0 \<le> totalSimulations cfg"
  shows "store_ok st'"
proof -
  from run obtain st'' where gen: "generateSimulations cfg env st = Some (Inr (out, st''))"
    and st': "st' = st''\<lparr>latestOutput := Some out\<rparr>"
    by (auto simp: getSimulationData_def split: option.splits sum.splits)
  from generateSimulations_returned [OF gen] obtain allPrices pool idx where
    exec: "executeFullSimulation
        (lastKnownPrice (currentPriceBTC env (st\<lparr>simulationStatus := ''PROCESSING''\<rparr>)))
        (totalSimulations cfg) (volatilityPercentage cfg / 100) (simulationDays cfg)
        (turbitPower cfg) (fresh_pool (random env)) = Some (Inr (allPrices, pool))"
    and idx: "determineNextFileIndex (readdirSync (dataPrivateDir st)) outputFileSources = Inr idx"
    by blast
  from generateSimulations_returns [OF exec idx] gen have facts:
    "simulationCounter st'' = simulationCounter st + 1"
    "simulatedData st'' = simulatedData st + totalSimulations cfg"
    "dataPrivateDir st'' =
       write_loop (totalSimulations cfg)
         (lastKnownPrice (currentPriceBTC env (st\<lparr>simulationStatus := ''PROCESSING''\<rparr>)))
         allPrices (source_file idx) 0 (writeCSV (source_file idx) [] (dataPrivateDir st))"
    by auto
  have len: "int (length allPrices) = totalSimulations cfg"
    using exec count by (rule executeFullSimulation_length)
  have "ledger_ok st'"
    using ledger_step [OF _ run] ok by (simp add: store_ok_def)
  moreover have "simulationCounter st' =
      int (length (getCSVFiles (dataPrivateDir st') outputFileSources))"
    using ok facts(1) by (simp add: st' facts(3) run_files(1) [OF idx len] store_ok_def)
  moreover have "simulatedData st' = calculateSimulatedData (dataPrivateDir st') outputFileSources"
    using ok facts(2) by (simp add: st' facts(3) run_files(2) [OF idx len] store_ok_def)
  ultimately show ?thesis
    by (simp add: store_ok_def)
qed

lemma restart_step:
  assumes ok: "store_ok st" and again: "restart st = Inr st'"
  shows "store_ok st' \<and> run_log st' = run_log st \<and>
         simulationCounter st' = simulationCounter st \<and> simulatedData st' = simulatedData st"
proof -
  from again obtain idx where st': "st' = (static_engine (dataPrivateDir st) (coreFilePath st))
      \<lparr>fileIndex := idx,
        simulatedData := calculateSimulatedData (dataPrivateDir st) outputFileSources,
        simulationCounter := int (length (getCSVFiles (dataPrivateDir st) outputFileSources))\<rparr>"
    by (auto simp: restart_def init_def static_engine_def split: sum.splits)
  have log: "run_log st' = run_log st"
    by (simp add: st' run_log_def static_engine_def)
  have counters: "simulationCounter st' = simulationCounter st" "simulatedData st' = simulatedData st"
    using ok by (simp_all add: st' store_ok_def)
  have dir: "dataPrivateDir st' = dataPrivateDir st"
    by (simp add: st' static_engine_def)
  show ?thesis
    using ok by (auto simp: store_ok_def ledger_ok_def counters_agree_iff log counters dir)
qed

lemma fresh_store_ok: "restart (static_engine [] []) = Inr st \<Longrightarrow> store_ok st"
  by (auto simp: restart_def init_def static_engine_def store_ok_def ledger_ok_def counters_agree_def
      run_log_def getLastFileIndex_def readdirSync_def getCSVFiles_def calculateSimulatedData_def)

text \<open>
  The hypothesis of claim C4 is kept by restarts as well. From a store on which the
  counters agree with the run log and with the raw-output files (an empty store, for
  one), every history of restarts and of completed runs with non-negative counts leads
  to such a store again, on which the run log is chained.
\<close>

lemma ledger_across_restarts:
  assumes "store_ok st"
    and "\<And>cfg env. Run cfg env \<in> set events \<Longrightarrow> 0 \<le> totalSimulations cfg"
    and "run_events st events = Some st'"
  shows "store_ok st'"
  using assms
proof (induction events arbitrary: st)
  case Nil
  then show ?case by simp
next
  case (Cons ev events)
  show ?case
  proof (cases ev)
    case (Run cfg env)
    with Cons.prems(3) obtain out st1 where
      first: "getSimulationData cfg env st = Some (Inr (out, st1))"
      and rest: "run_events st1 events = Some st'"
      by (auto split: option.splits sum.splits)
    have "0 \<le> totalSimulations cfg"
      using Cons.prems(2) [of cfg env] Run by simp
    with Cons.prems(1) first have "store_ok st1"
      by (rule store_step)
    then show ?thesis
      using Cons.prems(2) rest by (intro Cons.IH) auto
  next
    case Restart
    with Cons.prems(3) obtain st1 where
      first: "restart st = Inr st1" and rest: "run_events st1 events = Some st'"
      by (auto split: sum.splits)
    from restart_step [OF Cons.prems(1) first] have "store_ok st1"
      by simp
    then show ?thesis
      using Cons.prems(2) rest by (intro Cons.IH) auto
  qed
qed


end
